theory Spec2Isabelle
  imports Complex_Main "HOL-Library.AList"
begin

section \<open>JavaScript values\<close>

text \<open>
  The values the program handles. A number is a finite rational (every double is one),
  NaN or an infinity; an object is the list of its own enumerable properties in the
  order \<^verbatim>\<open>Object.keys\<close> enumerates them (integer-like keys first, in ascending order,
  then the other keys in insertion order); a function is given by its source text.
\<close>

datatype jsnum = Fin rat | NaN | PosInf | NegInf

datatype jsval =
    JUndefined
  | JNull
  | JBool bool
  | JNum jsnum
  | JStr string
  | JArr "jsval list"
  | JObj "(string \<times> jsval) list"
  | JFun string

text \<open>Truthiness, as \<^verbatim>\<open>!x\<close> and \<^verbatim>\<open>x || y\<close> test it.\<close>

fun truthy :: "jsval \<Rightarrow> bool" where
  "truthy JUndefined = False"
| "truthy JNull = False"
| "truthy (JBool b) = b"
| "truthy (JNum n) = (n \<noteq> NaN \<and> n \<noteq> Fin 0)"
| "truthy (JStr s) = (s \<noteq> [])"
| "truthy (JArr xs) = True"
| "truthy (JObj kvs) = True"
| "truthy (JFun src) = True"

text \<open>
  \<^verbatim>\<open>o.k\<close> for the property names the routes and middleware read (none of them is an
  array index, \<^verbatim>\<open>length\<close> or a member of a built-in prototype): the own property of an
  object, \<^verbatim>\<open>undefined\<close> otherwise.
\<close>

fun get_prop :: "jsval \<Rightarrow> string \<Rightarrow> jsval" where
  "get_prop (JObj kvs) k = (case map_of kvs k of Some v \<Rightarrow> v | None \<Rightarrow> JUndefined)"
| "get_prop v k = JUndefined"

definition dquote :: char where
  "dquote = CHR 0x22"

definition squote :: char where
  "squote = CHR 0x27"

definition digit_char :: "nat \<Rightarrow> char" where
  "digit_char d = ''0123456789'' ! d"

text \<open>The decimal numeral of a natural number, as a template literal prints an index.\<close>

fun decimal :: "nat \<Rightarrow> string" where
  "decimal n =
     (if n < 10 then [digit_char n] else decimal (n div 10) @ [digit_char (n mod 10)])"

declare decimal.simps [simp del]

text \<open>
  The own enumerable properties that \<^verbatim>\<open>Object.keys\<close>, \<^verbatim>\<open>Object.values\<close> and an object
  spread \<^verbatim>\<open>{...v}\<close> read: those of an object, the indexed elements of an array or of a
  string, nothing for the other values.
\<close>

fun own_props :: "jsval \<Rightarrow> (string \<times> jsval) list" where
  "own_props (JObj kvs) = kvs"
| "own_props (JArr xs) = map (\<lambda>(i, x). (decimal i, x)) (enumerate 0 xs)"
| "own_props (JStr s) = map (\<lambda>(i, c). (decimal i, JStr [c])) (enumerate 0 s)"
| "own_props v = []"

section \<open>Errors\<close>

text \<open>
  A thrown Error object, as far as the program reads it: its \<^verbatim>\<open>status\<close> and
  \<^verbatim>\<open>message\<close> properties.
\<close>

record error =
  status :: jsval
  message :: jsval

text \<open>
  Modelled from the spec: the class \<^verbatim>\<open>BadRequestError\<close> of expressError.js, which is
  not among the sources. Section 7 of the specification gives its status
  ("Validation failures produce 400 with schema error messages"); the message is the
  constructor's argument.
\<close>

definition BadRequestError :: "jsval \<Rightarrow> error" where
  "BadRequestError msg = \<lparr>status = JNum (Fin 400), message = msg\<rparr>"

text \<open>A TypeError thrown by the engine: an Error without a \<^verbatim>\<open>status\<close> property.\<close>

definition TypeError :: "string \<Rightarrow> error" where
  "TypeError msg = \<lparr>status = JUndefined, message = JStr msg\<rparr>"

section \<open>helpers/sql.js\<close>

text \<open>
  What the function asks of the JavaScript engine:
  \<^item> \<open>inherited v name\<close> is what \<^verbatim>\<open>v[name]\<close> evaluates to when \<open>v\<close> is not an object
    with an own property \<open>name\<close>: the member found along the prototype chain (for a
    plain object those of \<^verbatim>\<open>Object.prototype\<close>, such as \<^verbatim>\<open>constructor\<close> and
    \<^verbatim>\<open>toString\<close>), for an array or a string also its elements and \<^verbatim>\<open>length\<close>, and
    \<^verbatim>\<open>undefined\<close> when there is none;
  \<^item> \<open>toText v\<close> is the conversion to a string that a template literal applies to a
    value other than a string: \<open>Inr\<close> the text, or \<open>Inl\<close> the message of the TypeError
    it throws (an object without a usable \<^verbatim>\<open>toString\<close>);
  \<^item> \<open>keysMessage\<close> and \<open>readMessage\<close> are the messages of the TypeErrors thrown by
    \<^verbatim>\<open>Object.keys\<close> and by a property read on \<^verbatim>\<open>undefined\<close> or \<^verbatim>\<open>null\<close>.
\<close>

record engine =
  inherited :: "jsval \<Rightarrow> string \<Rightarrow> jsval"
  toText :: "jsval \<Rightarrow> string + string"
  keysMessage :: "jsval \<Rightarrow> string"
  readMessage :: "jsval \<Rightarrow> string \<Rightarrow> string"

text \<open>\<^verbatim>\<open>Array.prototype.join\<close> on an array of strings.\<close>

fun join :: "string \<Rightarrow> string list \<Rightarrow> string" where
  "join sep [] = []"
| "join sep [x] = x"
| "join sep (x # y # ys) = x @ sep @ join sep (y # ys)"

record 'v sql_update =
  setCols :: string
  "values" :: "'v list"

text \<open>
  \<^verbatim>\<open>obj[name]\<close> on an object with the own properties \<open>kvs\<close>: the own property, or
  what the prototype chain gives.
\<close>

definition member :: "engine \<Rightarrow> (string \<times> jsval) list \<Rightarrow> string \<Rightarrow> jsval" where
  "member eng kvs name =
     (case map_of kvs name of Some v \<Rightarrow> v | None \<Rightarrow> inherited eng (JObj kvs) name)"

text \<open>
  \<^verbatim>\<open>jsToSql[colName]\<close> for any argument: a TypeError on \<^verbatim>\<open>undefined\<close> and \<^verbatim>\<open>null\<close>
  (an omitted argument is \<^verbatim>\<open>undefined\<close>).
\<close>

definition read_member :: "engine \<Rightarrow> jsval \<Rightarrow> string \<Rightarrow> error + jsval" where
  "read_member eng obj name =
     (if obj = JUndefined \<or> obj = JNull then Inl (TypeError (readMessage eng obj name))
      else Inr (case obj of
                  JObj kvs \<Rightarrow> member eng kvs name
                | _ \<Rightarrow> inherited eng obj name))"

text \<open>What a template literal prints for \<^verbatim>\<open>${v}\<close>: a string as it is.\<close>

definition template_text :: "engine \<Rightarrow> jsval \<Rightarrow> error + string" where
  "template_text eng v =
     (case v of
        JStr s \<Rightarrow> Inr s
      | _ \<Rightarrow> (case toText eng v of Inl msg \<Rightarrow> Inl (TypeError msg) | Inr s \<Rightarrow> Inr s))"

text \<open>
  \<^verbatim>\<open>${jsToSql[colName] || colName}\<close>: the looked-up value when it is truthy, the key
  when it is falsy (no member at all, or one that is the empty string, 0, null, ...).
\<close>

definition sql_col :: "engine \<Rightarrow> jsval \<Rightarrow> string \<Rightarrow> error + string" where
  "sql_col eng jsToSql colName =
     (case read_member eng jsToSql colName of
        Inl err \<Rightarrow> Inl err
      | Inr v \<Rightarrow> if truthy v then template_text eng v else Inr colName)"

text \<open>
  \<^verbatim>\<open>keys.map((colName, idx) => ...)\<close>: the callback receives the element and its index,
  in order, and the first call that throws ends the loop.
\<close>

fun map_cols :: "(string \<Rightarrow> nat \<Rightarrow> error + string) \<Rightarrow> nat \<Rightarrow> string list \<Rightarrow> error + string list" where
  "map_cols f idx [] = Inr []"
| "map_cols f idx (colName # rest) =
     (case f colName idx of
        Inl err \<Rightarrow> Inl err
      | Inr col \<Rightarrow> (case map_cols f (idx + 1) rest of
                      Inl err \<Rightarrow> Inl err
                    | Inr cols \<Rightarrow> Inr (col # cols)))"

text \<open>
  \<^verbatim>\<open>Object.keys\<close> is \<open>map fst\<close> of the own properties and \<^verbatim>\<open>Object.values\<close> is
  \<open>map snd\<close>; \<^verbatim>\<open>Object.keys\<close> throws a TypeError on \<^verbatim>\<open>undefined\<close> and \<^verbatim>\<open>null\<close>.
\<close>

definition sqlForPartialUpdate :: "engine \<Rightarrow> jsval \<Rightarrow> jsval \<Rightarrow> error + jsval sql_update" where
  "sqlForPartialUpdate eng dataToUpdate jsToSql =
     (if dataToUpdate = JUndefined \<or> dataToUpdate = JNull
      then Inl (TypeError (keysMessage eng dataToUpdate))
      else
        let keys = map fst (own_props dataToUpdate) in
        if length keys = 0 then Inl (BadRequestError (JStr ''No data''))
        else
          case map_cols (\<lambda>colName idx.
                  case sql_col eng jsToSql colName of
                    Inl err \<Rightarrow> Inl err
                  | Inr c \<Rightarrow> Inr ([dquote] @ c @ [dquote] @ ''=$'' @ decimal (idx + 1)))
                0 keys of
            Inl err \<Rightarrow> Inl err
          | Inr cols \<Rightarrow>
              Inr \<lparr>setCols = join '', '' cols, values = map snd (own_props dataToUpdate)\<rparr>)"

text \<open>
  The column name as claim C1 words it, for a mapping whose entries are strings: the
  mapping's entry when there is one, the key itself otherwise.
\<close>

definition claimed_col :: "(string \<times> jsval) list \<Rightarrow> string \<Rightarrow> string" where
  "claimed_col jsToSql k =
     (case map_of jsToSql k of
        Some v \<Rightarrow> (case v of JStr c \<Rightarrow> c | _ \<Rightarrow> k)
      | None \<Rightarrow> k)"

text \<open>
  The assignment list as claim C1 words it: for \<open>i = 1..n\<close> the string
  \<^verbatim>\<open>"ci"=$i\<close>, where \<open>ci\<close> is computed from the \<open>i\<close>-th key by \<open>col\<close>,
  joined by a comma and a space.
\<close>

definition claimed_setCols :: "(string \<Rightarrow> string) \<Rightarrow> string list \<Rightarrow> string" where
  "claimed_setCols col ks =
     join '', '' (map (\<lambda>i. [dquote] @ col (ks ! (i - 1)) @ [dquote] @ ''=$'' @ decimal i)
                      [1..<Suc (length ks)])"

text \<open>
  A sample engine, given as far as the examples below go: a plain object inherits
  \<^verbatim>\<open>constructor\<close> and \<^verbatim>\<open>toString\<close>, and a function prints as its source text.
\<close>

definition sample_engine :: engine where
  "sample_engine =
     \<lparr>inherited = (\<lambda>v name.
         if name = ''constructor'' then JFun ''function Object() { [native code] }''
         else if name = ''toString'' then JFun ''function toString() { [native code] }''
         else JUndefined),
      toText = (\<lambda>v. case v of
                   JFun src \<Rightarrow> Inr src
                 | JBool b \<Rightarrow> Inr (if b then ''true'' else ''false'')
                 | _ \<Rightarrow> Inl ''Cannot convert object to primitive value''),
      keysMessage = (\<lambda>v. ''Cannot convert undefined or null to object''),
      readMessage = (\<lambda>v name.
         ''Cannot read properties of '' @ (if v = JNull then ''null'' else ''undefined'')
         @ '' (reading '' @ [squote] @ name @ [squote] @ '')'')\<rparr>"

section \<open>Requests, responses and what lies outside the sources\<close>

text \<open>
  A request whose body \<^verbatim>\<open>express.json()\<close> has parsed and which \<^verbatim>\<open>authenticateJWT\<close> has
  passed on: its verb, the segments of its path (the path without the query string,
  split at the slashes, a trailing slash ignored, not decoded), the current user
  (\<^verbatim>\<open>req.user\<close>, \<^verbatim>\<open>undefined\<close> when nobody is logged in), the parsed JSON body and the
  parsed query object. \<open>PUT\<close> stands for the verbs no route is registered for.
\<close>

datatype http_method = GET | POST | PATCH | DELETE | PUT | HEAD | OPTIONS

record request =
  req_method :: http_method
  path :: "string list"
  params :: "(string \<times> string) list"
  user :: jsval
  body :: jsval
  query :: "(string \<times> jsval) list"

text \<open>
  \<^verbatim>\<open>res.status(s).json(b)\<close>: the status and the value handed to \<^verbatim>\<open>res.json\<close>
  (\<^verbatim>\<open>undefined\<close> for a response without a body; the answer to a \<^verbatim>\<open>HEAD\<close> request
  carries the status and no body).
\<close>

record response =
  statusCode :: jsval
  json :: jsval

datatype schema =
    jobNewSchema | jobUpdateSchema | jobSearchSchema
  | companyNewSchema | companyUpdateSchema | companySearchSchema
  | userNewSchema | userUpdateSchema | userAuthSchema | userRegisterSchema

text \<open>The result of \<^verbatim>\<open>jsonschema.validate\<close>, as far as the routes read it.\<close>

record validation_error =
  stack :: string

record validator_result =
  valid :: bool
  errors :: "validation_error list"

text \<open>The operations of the models and of helpers/tokens.js, with their arguments.\<close>

datatype call =
    Job_create jsval
  | Job_findAll jsval
  | Job_get jsval
  | Job_update jsval jsval
  | Job_remove jsval
  | Company_create jsval
  | Company_findAll jsval
  | Company_get jsval
  | Company_update jsval jsval
  | Company_remove jsval
  | User_register jsval
  | User_authenticate jsval jsval
  | User_findAll
  | User_get jsval
  | User_update jsval jsval
  | User_remove jsval
  | User_applyToJob jsval jsval
  | createToken jsval

text \<open>
  What a request leaves behind, in order: the functions that answered it or that the
  routes registered and that ran, the validations made and the model operations
  performed.
\<close>

datatype layer =
    Mw_cors
  | Mw_ensureAdmin
  | Mw_ensureCorrectUserOrAdmin
  | Route http_method string
  | NotFound404
  | ErrorHandler

datatype event =
    Ran layer
  | Validate jsval schema
  | Call call

text \<open>
  The parts of the program that are libraries or are not among the sources are parameters:
  \<^item> \<open>validate\<close> is \<^verbatim>\<open>jsonschema.validate\<close> with the schemas of schemas/*.json;
  \<^item> \<open>run\<close> is the outcome of awaiting a model operation (or of \<^verbatim>\<open>createToken\<close>):
    the error it throws or the value it returns;
  \<^item> \<open>toNumber\<close> is the conversion that unary \<^verbatim>\<open>+\<close> applies (floating point);
  \<^item> \<open>notFoundMessage\<close> is the message a \<^verbatim>\<open>NotFoundError\<close> built without argument
    carries, \<open>typeErrorMessage\<close> the text of the engine's TypeError;
  \<^item> \<open>decodeURIComponent\<close> is the engine's function of that name, \<open>None\<close> where it
    throws a URIError;
  \<^item> \<open>correctUserOrAdmin\<close>, \<open>forbids\<close> and \<open>refusalMessage\<close>: see the guards below.
\<close>

record env =
  validate :: "jsval \<Rightarrow> schema \<Rightarrow> validator_result"
  run :: "call \<Rightarrow> error + jsval"
  toNumber :: "jsval \<Rightarrow> jsnum"
  notFoundMessage :: jsval
  typeErrorMessage :: string
  decodeURIComponent :: "string \<Rightarrow> string option"
  correctUserOrAdmin :: "request \<Rightarrow> bool"
  forbids :: "request \<Rightarrow> bool"
  refusalMessage :: "request \<Rightarrow> jsval"

text \<open>
  Modelled from the spec: the class \<^verbatim>\<open>NotFoundError\<close> of expressError.js, which is
  not among the sources. Section 7 of the specification gives its status ("missing
  resources produce 404").
\<close>

definition NotFoundError :: "jsval \<Rightarrow> error" where
  "NotFoundError msg = \<lparr>status = JNum (Fin 404), message = msg\<rparr>"

text \<open>
  A middleware or handler ends by calling \<^verbatim>\<open>next()\<close>, by calling \<^verbatim>\<open>next(err)\<close> or by
  sending a response.
\<close>

datatype outcome = Next | NextErr error | Sent response

type_synonym middleware = "env \<Rightarrow> request \<Rightarrow> event list \<times> outcome"

section \<open>middleware/ensureAdmin.js\<close>


section \<open>middleware/auth.js\<close>

text \<open>The user is an admin: there is a current user and its \<^verbatim>\<open>isAdmin\<close> is truthy.\<close>

definition is_admin :: "request \<Rightarrow> bool" where
  "is_admin req = (truthy (user req) \<and> truthy (get_prop (user req) ''isAdmin''))"

text \<open>
  Modelled from the spec: the authorization errors of expressError.js
  (\<^verbatim>\<open>UnauthorizedError\<close>, \<^verbatim>\<open>ForbiddenError\<close>), which is not among the sources. Section 7
  of the specification gives their status ("authorization failures produce 401/403");
  which of the two a refusal carries, and its message, are the parameters \<open>forbids\<close>
  and \<open>refusalMessage\<close>.
\<close>

definition authorizationError :: "env \<Rightarrow> request \<Rightarrow> error" where
  "authorizationError env req =
     \<lparr>status = JNum (Fin (if forbids env req then 403 else 401)),
      message = refusalMessage env req\<rparr>"

text \<open>
  Modelled from the spec: \<^verbatim>\<open>ensureAdmin\<close> of middleware/auth.js, the guard that
  routes/jobs.js, routes/companies.js and routes/users.js import, which is not among the
  sources. By section 1 of the specification ("role-based authorization (admin vs.
  self)") and section 7 ("authorization failures produce 401/403", "All errors flow
  through a single centralized handler") it calls \<^verbatim>\<open>next()\<close> for an admin and passes an
  authorization error to \<^verbatim>\<open>next(err)\<close> for anyone else.
\<close>

definition auth_ensureAdmin :: middleware where
  "auth_ensureAdmin env req =
     (if is_admin req then ([], Next)
      else ([], NextErr (authorizationError env req)))"

text \<open>
  Modelled from the spec: \<^verbatim>\<open>ensureCorrectUserOrAdmin\<close> of middleware/auth.js, which is
  not among the sources. By the same sentences of the specification it calls
  \<^verbatim>\<open>next()\<close> for the users it lets through (an admin, or the user the request is
  about: the parameter \<open>correctUserOrAdmin\<close>) and passes an authorization error to
  \<^verbatim>\<open>next(err)\<close> for anyone else.
\<close>

definition ensureCorrectUserOrAdmin :: middleware where
  "ensureCorrectUserOrAdmin env req =
     (if correctUserOrAdmin env req then ([], Next)
      else ([], NextErr (authorizationError env req)))"

section \<open>The route handlers\<close>

text \<open>\<^verbatim>\<open>res.status(code).json(payload)\<close>; \<^verbatim>\<open>res.json(payload)\<close> sends Express's default 200.\<close>

definition send :: "jsval \<Rightarrow> jsval \<Rightarrow> event list \<times> outcome" where
  "send code payload = ([], Sent \<lparr>statusCode = code, json = payload\<rparr>)"

definition send_json :: "jsval \<Rightarrow> event list \<times> outcome" where
  "send_json payload = send (JNum (Fin 200)) payload"

text \<open>
  \<^verbatim>\<open>const v = await op(...)\<close> inside \<^verbatim>\<open>try { ... } catch (err) { return next(err); }\<close>:
  an error thrown by the operation goes to \<^verbatim>\<open>next\<close>, a value goes on to the rest of
  the handler.
\<close>

definition await :: "env \<Rightarrow> call \<Rightarrow> (jsval \<Rightarrow> event list \<times> outcome) \<Rightarrow> event list \<times> outcome" where
  "await env c rest =
     (case run env c of
        Inl err \<Rightarrow> ([Call c], NextErr err)
      | Inr v \<Rightarrow> (Call c # fst (rest v), snd (rest v)))"

text \<open>
  The validation block every validated handler opens with:
  \<^verbatim>\<open>
  const validator = jsonschema.validate(inst, schema);
  if (!validator.valid) {
    const errs = validator.errors.map(e => e.stack);
    throw new BadRequestError(errs);
  }
  \<close>
  inside the same \<^verbatim>\<open>try\<close>.
\<close>

definition validated ::
  "env \<Rightarrow> jsval \<Rightarrow> schema \<Rightarrow> event list \<times> outcome \<Rightarrow> event list \<times> outcome" where
  "validated env inst sch rest =
     (let validator = validate env inst sch in
      if \<not> valid validator
      then (let errs = map (\<lambda>e. JStr (stack e)) (errors validator)
            in ([Validate inst sch], NextErr (BadRequestError (JArr errs))))
      else (Validate inst sch # fst rest, snd rest))"

text \<open>\<^verbatim>\<open>req.params.name\<close>.\<close>

definition param :: "request \<Rightarrow> string \<Rightarrow> jsval" where
  "param req name = (case map_of (params req) name of Some s \<Rightarrow> JStr s | None \<Rightarrow> JUndefined)"

subsection \<open>routes/jobs.js\<close>

definition jobs_post :: middleware where
  "jobs_post env req =
     validated env (body req) jobNewSchema
       (await env (Job_create (body req)) (\<lambda>job.
          send (JNum (Fin 201)) (JObj [(''job'', job)])))"

text \<open>
  \<^verbatim>\<open>q\<close> is the query object itself; an assignment \<^verbatim>\<open>q.k = v\<close> replaces the property
  where it stands or adds it at the end.
\<close>

definition jobs_get_query :: "env \<Rightarrow> (string \<times> jsval) list \<Rightarrow> (string \<times> jsval) list" where
  "jobs_get_query env q0 =
     (let q1 = (if get_prop (JObj q0) ''minSalary'' \<noteq> JUndefined
                then AList.update ''minSalary''
                       (JNum (toNumber env (get_prop (JObj q0) ''minSalary''))) q0
                else q0)
      in AList.update ''hasEquity'' (JBool (get_prop (JObj q1) ''hasEquity'' = JStr ''true'')) q1)"

definition jobs_get :: middleware where
  "jobs_get env req =
     (let q = jobs_get_query env (query req) in
      validated env (JObj q) jobSearchSchema
        (await env (Job_findAll (JObj q)) (\<lambda>jobs.
           send_json (JObj [(''jobs'', jobs)]))))"

definition jobs_get_id :: middleware where
  "jobs_get_id env req =
     await env (Job_get (param req ''id'')) (\<lambda>job.
       send_json (JObj [(''job'', job)]))"

definition jobs_patch_id :: middleware where
  "jobs_patch_id env req =
     validated env (body req) jobUpdateSchema
       (await env (Job_update (param req ''id'') (body req)) (\<lambda>job.
          send_json (JObj [(''job'', job)])))"

definition jobs_delete_id :: middleware where
  "jobs_delete_id env req =
     await env (Job_remove (param req ''id'')) (\<lambda>_.
       send_json (JObj [(''deleted'', JNum (toNumber env (param req ''id'')))]))"

subsection \<open>routes/users.js\<close>

definition users_post :: middleware where
  "users_post env req =
     validated env (body req) userNewSchema
       (await env (User_register (body req)) (\<lambda>user.
          await env (createToken user) (\<lambda>token.
            send (JNum (Fin 201)) (JObj [(''user'', user), (''token'', token)]))))"

definition users_get :: middleware where
  "users_get env req =
     await env User_findAll (\<lambda>users.
       send_json (JObj [(''users'', users)]))"

definition users_get_username :: middleware where
  "users_get_username env req =
     await env (User_get (param req ''username'')) (\<lambda>user.
       send_json (JObj [(''user'', user)]))"

definition users_patch_username :: middleware where
  "users_patch_username env req =
     validated env (body req) userUpdateSchema
       (await env (User_update (param req ''username'') (body req)) (\<lambda>user.
          send_json (JObj [(''user'', user)])))"

definition users_delete_username :: middleware where
  "users_delete_username env req =
     await env (User_remove (param req ''username'')) (\<lambda>_.
       send_json (JObj [(''deleted'', param req ''username'')]))"

definition users_post_username_jobs_id :: middleware where
  "users_post_username_jobs_id env req =
     (let jobId = JNum (toNumber env (param req ''id'')) in
      await env (User_applyToJob (param req ''username'') jobId) (\<lambda>_.
        send_json (JObj [(''applied'', jobId)])))"

subsection \<open>routes/companies.js\<close>

definition companies_post :: middleware where
  "companies_post env req =
     validated env (body req) companyNewSchema
       (await env (Company_create (body req)) (\<lambda>company.
          send (JNum (Fin 201)) (JObj [(''company'', company)])))"

definition companies_get_query :: "env \<Rightarrow> (string \<times> jsval) list \<Rightarrow> (string \<times> jsval) list" where
  "companies_get_query env q0 =
     (let q1 = (if get_prop (JObj q0) ''minEmployees'' \<noteq> JUndefined
                then AList.update ''minEmployees''
                       (JNum (toNumber env (get_prop (JObj q0) ''minEmployees''))) q0
                else q0)
      in if get_prop (JObj q1) ''maxEmployees'' \<noteq> JUndefined
         then AList.update ''maxEmployees''
                (JNum (toNumber env (get_prop (JObj q1) ''maxEmployees''))) q1
         else q1)"

definition companies_get :: middleware where
  "companies_get env req =
     (let q = companies_get_query env (query req) in
      validated env (JObj q) companySearchSchema
        (await env (Company_findAll (JObj q)) (\<lambda>companies.
           send_json (JObj [(''companies'', companies)]))))"

definition companies_get_handle :: middleware where
  "companies_get_handle env req =
     await env (Company_get (param req ''handle'')) (\<lambda>company.
       send_json (JObj [(''company'', company)]))"

definition companies_patch_handle :: middleware where
  "companies_patch_handle env req =
     validated env (body req) companyUpdateSchema
       (await env (Company_update (param req ''handle'') (body req)) (\<lambda>company.
          send_json (JObj [(''company'', company)])))"

definition companies_delete_handle :: middleware where
  "companies_delete_handle env req =
     await env (Company_remove (param req ''handle'')) (\<lambda>_.
       send_json (JObj [(''deleted'', param req ''handle'')]))"

subsection \<open>routes/auth.js\<close>

text \<open>
  \<^verbatim>\<open>const { username, password } = req.body\<close> throws a TypeError when the body is
  \<^verbatim>\<open>undefined\<close> or \<^verbatim>\<open>null\<close>.
\<close>

definition auth_post_token :: middleware where
  "auth_post_token env req =
     validated env (body req) userAuthSchema
       (if body req = JUndefined \<or> body req = JNull
        then ([], NextErr (TypeError (typeErrorMessage env)))
        else
          let username = get_prop (body req) ''username'';
              password = get_prop (body req) ''password''
          in await env (User_authenticate username password) (\<lambda>user.
               await env (createToken user) (\<lambda>token.
                 send_json (JObj [(''token'', token)]))))"

definition auth_post_register :: middleware where
  "auth_post_register env req =
     validated env (body req) userRegisterSchema
       (await env (User_register
                     (JObj (AList.update ''isAdmin'' (JBool False) (own_props (body req)))))
          (\<lambda>newUser.
             await env (createToken newUser) (\<lambda>token.
               send (JNum (Fin 201)) (JObj [(''token'', token)]))))"

section \<open>Routing\<close>

text \<open>
  Express matches mount paths and route paths without regard to case (the application
  sets no \<^verbatim>\<open>caseSensitive\<close> option): in a literal segment the letters A to Z count as
  a to z.
\<close>

definition lower_char :: "char \<Rightarrow> char" where
  "lower_char c =
     (case map_of (zip ''ABCDEFGHIJKLMNOPQRSTUVWXYZ'' ''abcdefghijklmnopqrstuvwxyz'') c of
        Some l \<Rightarrow> l
      | None \<Rightarrow> c)"

definition lower :: "string \<Rightarrow> string" where
  "lower s = map lower_char s"

text \<open>
  A route pattern is a list of segments, literal or a named parameter (\<^verbatim>\<open>:id\<close>). A
  parameter matches one segment that is not empty. Once the whole pattern matches the
  path, Express decodes the parameters from left to right with
  \<^verbatim>\<open>decodeURIComponent\<close>; a parameter that cannot be decoded makes the match fail with
  an error.
\<close>

datatype seg = Lit string | Param string

datatype 'a found = Unmatched | Undecodable string | Found 'a

fun match_path ::
  "(string \<Rightarrow> string option) \<Rightarrow> seg list \<Rightarrow> string list \<Rightarrow> (string \<times> string) list found" where
  "match_path dec [] [] = Found []"
| "match_path dec (Lit s # ps) (x # xs) =
     (if lower x = lower s then match_path dec ps xs else Unmatched)"
| "match_path dec (Param n # ps) (x # xs) =
     (if x = [] then Unmatched
      else case match_path dec ps xs of
             Unmatched \<Rightarrow> Unmatched
           | rest \<Rightarrow>
               (case dec x of
                  None \<Rightarrow> Undecodable x
                | Some v \<Rightarrow>
                    (case rest of
                       Found bound \<Rightarrow> Found ((n, v) # bound)
                     | failed \<Rightarrow> failed)))"
| "match_path dec ps xs = Unmatched"

text \<open>
  The error Express makes of a parameter it cannot decode: status 400 and the message
  \<^verbatim>\<open>Failed to decode param '...'\<close>.
\<close>

definition decode_failed :: "string \<Rightarrow> error" where
  "decode_failed val =
     \<lparr>status = JNum (Fin 400),
      message = JStr (''Failed to decode param '' @ [squote] @ val @ [squote])\<rparr>"

text \<open>
  A route is registered with a verb, a pattern and its stack of functions, each tagged
  with its name for the trace. A \<^verbatim>\<open>HEAD\<close> request is handled by the \<^verbatim>\<open>GET\<close> route
  (no route registers \<^verbatim>\<open>HEAD\<close> itself).
\<close>

record route =
  route_method :: http_method
  pattern :: "seg list"
  handlers :: "(layer \<times> middleware) list"

definition handles :: "route \<Rightarrow> http_method \<Rightarrow> bool" where
  "handles r m = (route_method r = m \<or> (m = HEAD \<and> route_method r = GET))"

text \<open>
  Control passes from one function to the next only through \<^verbatim>\<open>next()\<close>: what follows
  runs when the function before it called \<^verbatim>\<open>next()\<close>, and not after a response or a
  \<^verbatim>\<open>next(err)\<close>.
\<close>

definition on_next :: "event list \<times> outcome \<Rightarrow> event list \<times> outcome \<Rightarrow> event list \<times> outcome" where
  "on_next res rest =
     (case snd res of
        Next \<Rightarrow> (fst res @ fst rest, snd rest)
      | NextErr err \<Rightarrow> res
      | Sent r \<Rightarrow> res)"

text \<open>The stack of one route, in order.\<close>

fun run_stack :: "env \<Rightarrow> request \<Rightarrow> (layer \<times> middleware) list \<Rightarrow> event list \<times> outcome" where
  "run_stack env req [] = ([], Next)"
| "run_stack env req ((name, f) # fs) =
     on_next (Ran name # fst (f env req), snd (f env req)) (run_stack env req fs)"

text \<open>
  A router tries its routes in the order they were registered. It matches the path
  first: a route whose pattern does not match is passed over; a parameter that cannot
  be decoded ends the search with its error, whatever the verb; a route whose pattern
  matches and that handles the verb runs with \<^verbatim>\<open>req.params\<close> set, and the search goes
  on only if its whole stack called \<^verbatim>\<open>next()\<close>.
\<close>

fun router :: "route list \<Rightarrow> env \<Rightarrow> request \<Rightarrow> string list \<Rightarrow> event list \<times> outcome" where
  "router [] env req p = ([], Next)"
| "router (r # rs) env req p =
     (case match_path (decodeURIComponent env) (pattern r) p of
        Unmatched \<Rightarrow> router rs env req p
      | Undecodable val \<Rightarrow> ([], NextErr (decode_failed val))
      | Found ps \<Rightarrow>
          if handles r (req_method req)
          then on_next (run_stack env (req\<lparr>params := ps\<rparr>) (handlers r))
                       (router rs env req p)
          else router rs env req p)"

text \<open>
  The guard the tables name \<^verbatim>\<open>ensureAdmin\<close> is the one the routes import from
  middleware/auth.js.
\<close>

definition jobsRoutes :: "route list" where
  "jobsRoutes =
    [\<lparr>route_method = POST, pattern = [],
      handlers = [(Mw_ensureAdmin, auth_ensureAdmin), (Route POST ''/jobs'', jobs_post)]\<rparr>,
     \<lparr>route_method = GET, pattern = [],
      handlers = [(Route GET ''/jobs'', jobs_get)]\<rparr>,
     \<lparr>route_method = GET, pattern = [Param ''id''],
      handlers = [(Route GET ''/jobs/:id'', jobs_get_id)]\<rparr>,
     \<lparr>route_method = PATCH, pattern = [Param ''id''],
      handlers = [(Mw_ensureAdmin, auth_ensureAdmin), (Route PATCH ''/jobs/:id'', jobs_patch_id)]\<rparr>,
     \<lparr>route_method = DELETE, pattern = [Param ''id''],
      handlers = [(Mw_ensureAdmin, auth_ensureAdmin),
                  (Route DELETE ''/jobs/:id'', jobs_delete_id)]\<rparr>]"

definition usersRoutes :: "route list" where
  "usersRoutes =
    [\<lparr>route_method = POST, pattern = [],
      handlers = [(Mw_ensureAdmin, auth_ensureAdmin), (Route POST ''/users'', users_post)]\<rparr>,
     \<lparr>route_method = GET, pattern = [],
      handlers = [(Mw_ensureAdmin, auth_ensureAdmin), (Route GET ''/users'', users_get)]\<rparr>,
     \<lparr>route_method = GET, pattern = [Param ''username''],
      handlers = [(Mw_ensureCorrectUserOrAdmin, ensureCorrectUserOrAdmin),
                  (Route GET ''/users/:username'', users_get_username)]\<rparr>,
     \<lparr>route_method = PATCH, pattern = [Param ''username''],
      handlers = [(Mw_ensureCorrectUserOrAdmin, ensureCorrectUserOrAdmin),
                  (Route PATCH ''/users/:username'', users_patch_username)]\<rparr>,
     \<lparr>route_method = DELETE, pattern = [Param ''username''],
      handlers = [(Mw_ensureCorrectUserOrAdmin, ensureCorrectUserOrAdmin),
                  (Route DELETE ''/users/:username'', users_delete_username)]\<rparr>,
     \<lparr>route_method = POST, pattern = [Param ''username'', Lit ''jobs'', Param ''id''],
      handlers = [(Mw_ensureCorrectUserOrAdmin, ensureCorrectUserOrAdmin),
                  (Route POST ''/users/:username/jobs/:id'', users_post_username_jobs_id)]\<rparr>]"

definition companiesRoutes :: "route list" where
  "companiesRoutes =
    [\<lparr>route_method = POST, pattern = [],
      handlers = [(Mw_ensureAdmin, auth_ensureAdmin),
                  (Route POST ''/companies'', companies_post)]\<rparr>,
     \<lparr>route_method = GET, pattern = [],
      handlers = [(Route GET ''/companies'', companies_get)]\<rparr>,
     \<lparr>route_method = GET, pattern = [Param ''handle''],
      handlers = [(Route GET ''/companies/:handle'', companies_get_handle)]\<rparr>,
     \<lparr>route_method = PATCH, pattern = [Param ''handle''],
      handlers = [(Mw_ensureAdmin, auth_ensureAdmin),
                  (Route PATCH ''/companies/:handle'', companies_patch_handle)]\<rparr>,
     \<lparr>route_method = DELETE, pattern = [Param ''handle''],
      handlers = [(Mw_ensureAdmin, auth_ensureAdmin),
                  (Route DELETE ''/companies/:handle'', companies_delete_handle)]\<rparr>]"

definition authRoutes :: "route list" where
  "authRoutes =
    [\<lparr>route_method = POST, pattern = [Lit ''token''],
      handlers = [(Route POST ''/auth/token'', auth_post_token)]\<rparr>,
     \<lparr>route_method = POST, pattern = [Lit ''register''],
      handlers = [(Route POST ''/auth/register'', auth_post_register)]\<rparr>]"

section \<open>app.js\<close>

text \<open>
  \<^verbatim>\<open>app.use(cors())\<close>, with the library's default options: it answers every
  \<^verbatim>\<open>OPTIONS\<close> request itself, with status 204 and no body, and calls \<^verbatim>\<open>next()\<close> for
  the others.
\<close>

definition cors :: middleware where
  "cors env req =
     (if req_method req = OPTIONS
      then ([], Sent \<lparr>statusCode = JNum (Fin 204), json = JUndefined\<rparr>)
      else ([], Next))"

text \<open>
  \<^verbatim>\<open>app.use(prefix, routes)\<close>, in order: a router sees the requests whose path starts
  with its prefix, and the path without the prefix.
\<close>

definition mounts :: "(string \<times> route list) list" where
  "mounts = [(''auth'', authRoutes), (''companies'', companiesRoutes),
             (''users'', usersRoutes), (''jobs'', jobsRoutes)]"

fun use_routers :: "(string \<times> route list) list \<Rightarrow> env \<Rightarrow> request \<Rightarrow> event list \<times> outcome" where
  "use_routers [] env req = ([], Next)"
| "use_routers ((prefix, routes) # ms) env req =
     (case path req of
        [] \<Rightarrow> use_routers ms env req
      | x # rest \<Rightarrow>
          if lower x = lower prefix
          then on_next (router routes env req rest) (use_routers ms env req)
          else use_routers ms env req)"

text \<open>The 404 handler, which every request nothing else answered reaches.\<close>

definition notFound :: "env \<Rightarrow> request \<Rightarrow> error" where
  "notFound env req = NotFoundError (notFoundMessage env)"

text \<open>
  The generic error handler (the call of \<^verbatim>\<open>console.error\<close> writes a log and is not
  part of the response).
\<close>

definition errorHandler :: "error \<Rightarrow> response" where
  "errorHandler err =
     (let status' = (if truthy (status err) then status err else JNum (Fin 500));
          message' = message err
      in \<lparr>statusCode = status',
          json = JObj [(''error'', JObj [(''message'', message'), (''status'', status')])]\<rparr>)"

record result =
  response :: response
  trace :: "event list"

text \<open>
  The end of the application's stack: a response already sent stands; an error passed to
  \<^verbatim>\<open>next\<close> anywhere skips to the error handler; a request nothing answered reaches the
  404 handler, which passes its error to \<^verbatim>\<open>next\<close>.
\<close>

definition respond :: "env \<Rightarrow> request \<Rightarrow> event list \<times> outcome \<Rightarrow> result" where
  "respond env req res =
     (case snd res of
        Sent r \<Rightarrow> \<lparr>response = r, trace = fst res\<rparr>
      | NextErr err \<Rightarrow>
          \<lparr>response = errorHandler err, trace = fst res @ [Ran ErrorHandler]\<rparr>
      | Next \<Rightarrow>
          \<lparr>response = errorHandler (notFound env req),
           trace = fst res @ [Ran NotFound404, Ran ErrorHandler]\<rparr>)"

text \<open>
  The application: \<^verbatim>\<open>cors\<close> first, then (for a request the library middleware passes
  on, which leaves no trace) the routers, the 404 handler and the error handler.
\<close>

definition app :: "env \<Rightarrow> request \<Rightarrow> result" where
  "app env req =
     (if snd (cors env req) = Next
      then respond env req (use_routers mounts env req)
      else respond env req (Ran Mw_cors # fst (cors env req), snd (cors env req)))"

text \<open>
  Reading a trace: the functions that ran, the operations performed, and the function
  that sent the response, which is the last one that ran.
\<close>

fun ran :: "event list \<Rightarrow> layer list" where
  "ran [] = []"
| "ran (Ran l # evs) = l # ran evs"
| "ran (ev # evs) = ran evs"

fun calls :: "event list \<Rightarrow> call list" where
  "calls [] = []"
| "calls (Call c # evs) = c # calls evs"
| "calls (ev # evs) = calls evs"

definition sender :: "result \<Rightarrow> layer" where
  "sender res = last (ran (trace res))"

section \<open>Reading the application\<close>

text \<open>
  The route that answers a request: the first one, in registration order, whose pattern
  matches the path and that handles the verb, with the parameters the pattern binds;
  or the parameter that could not be decoded on the way.
\<close>

fun first_match ::
  "(string \<Rightarrow> string option) \<Rightarrow> route list \<Rightarrow> http_method \<Rightarrow> string list
     \<Rightarrow> (route \<times> (string \<times> string) list) found" where
  "first_match dec [] m p = Unmatched"
| "first_match dec (r # rs) m p =
     (case match_path dec (pattern r) p of
        Unmatched \<Rightarrow> first_match dec rs m p
      | Undecodable val \<Rightarrow> Undecodable val
      | Found ps \<Rightarrow> if handles r m then Found (r, ps) else first_match dec rs m p)"

fun resolve ::
  "(string \<Rightarrow> string option) \<Rightarrow> (string \<times> route list) list \<Rightarrow> http_method \<Rightarrow> string list
     \<Rightarrow> (route \<times> (string \<times> string) list) found" where
  "resolve dec [] m p = Unmatched"
| "resolve dec ((prefix, routes) # ms) m p =
     (case p of
        [] \<Rightarrow> resolve dec ms m p
      | x # rest \<Rightarrow>
          if lower x = lower prefix
          then (case first_match dec routes m rest of
                  Unmatched \<Rightarrow> resolve dec ms m p
                | Undecodable val \<Rightarrow> Undecodable val
                | Found found \<Rightarrow> Found found)
          else resolve dec ms m p)"

text \<open>A stack is terminal when it never ends by calling \<^verbatim>\<open>next()\<close>.\<close>

definition terminal :: "(layer \<times> middleware) list \<Rightarrow> bool" where
  "terminal fs = (\<forall>env req. snd (run_stack env req fs) \<noteq> Next)"

text \<open>
  A success response: status 200 or 201 and a body without an \<^verbatim>\<open>error\<close> member. An
  error response: a body with an \<^verbatim>\<open>error\<close> member, or a status from 400 on.
\<close>

definition success :: "response \<Rightarrow> bool" where
  "success r = ((statusCode r = JNum (Fin 200) \<or> statusCode r = JNum (Fin 201))
                \<and> get_prop (json r) ''error'' = JUndefined)"

definition error_response :: "response \<Rightarrow> bool" where
  "error_response r =
     (get_prop (json r) ''error'' \<noteq> JUndefined
      \<or> (case statusCode r of JNum (Fin q) \<Rightarrow> 400 \<le> q | _ \<Rightarrow> False))"


text \<open>The route handlers of the application, with their names, read off the tables.\<close>

definition route_handlers :: "(layer \<times> middleware) list" where
  "route_handlers =
     filter (\<lambda>(n, h). case n of Route m p \<Rightarrow> True | _ \<Rightarrow> False)
       (concat (map handlers (concat (map snd mounts))))"

text \<open>The answer of \<^verbatim>\<open>cors\<close> to an \<^verbatim>\<open>OPTIONS\<close> request.\<close>

definition preflight :: response where
  "preflight = \<lparr>statusCode = JNum (Fin 204), json = JUndefined\<rparr>"


text \<open>
  The validated endpoints, each with the value it validates (the request body, or the
  converted query object) and the schema it validates against.
\<close>

definition validations :: "env \<Rightarrow> request \<Rightarrow> (layer \<times> jsval \<times> schema) list" where
  "validations env req =
     [(Route POST ''/jobs'', body req, jobNewSchema),
      (Route GET ''/jobs'', JObj (jobs_get_query env (query req)), jobSearchSchema),
      (Route PATCH ''/jobs/:id'', body req, jobUpdateSchema),
      (Route POST ''/companies'', body req, companyNewSchema),
      (Route GET ''/companies'', JObj (companies_get_query env (query req)), companySearchSchema),
      (Route PATCH ''/companies/:handle'', body req, companyUpdateSchema),
      (Route POST ''/users'', body req, userNewSchema),
      (Route PATCH ''/users/:username'', body req, userUpdateSchema),
      (Route POST ''/auth/token'', body req, userAuthSchema),
      (Route POST ''/auth/register'', body req, userRegisterSchema)]"



section \<open>Sample environments and requests\<close>

text \<open>
  An environment in which every validation succeeds and every operation returns an
  empty object, one in which every validation fails with one error, one in which every
  operation throws an error without a status, as a database driver does, and one in
  which every operation finds nothing. Their decoder knows the segments without a
  percent sign, which it leaves as they are, and fails on the others; a refusal is a 403
  for a user who is logged in and a 401 otherwise.
\<close>

definition accepting :: env where
  "accepting =
     \<lparr>validate = (\<lambda>inst sch. \<lparr>valid = True, errors = []\<rparr>),
      run = (\<lambda>c. Inr (JObj [])),
      toNumber = (\<lambda>v. if v = JStr ''7'' then Fin 7 else NaN),
      notFoundMessage = JStr ''Not Found'',
      typeErrorMessage = ''Cannot destructure property'',
      decodeURIComponent = (\<lambda>s. if CHR ''%'' \<in> set s then None else Some s),
      correctUserOrAdmin =
        (\<lambda>req. is_admin req \<or> get_prop (user req) ''username'' = param req ''username''),
      forbids = (\<lambda>req. truthy (user req)),
      refusalMessage = (\<lambda>req. JStr ''Unauthorized'')\<rparr>"

definition rejecting :: env where
  "rejecting =
     accepting\<lparr>validate :=
       (\<lambda>inst sch. \<lparr>valid = False, errors = [\<lparr>stack = ''instance.salary is not of a type(s) integer''\<rparr>]\<rparr>)\<rparr>"

definition failing :: env where
  "failing =
     accepting\<lparr>run :=
       (\<lambda>c. Inl \<lparr>status = JUndefined, message = JStr ''connect ECONNREFUSED 127.0.0.1:5432''\<rparr>)\<rparr>"

definition missing :: env where
  "missing = accepting\<lparr>run := (\<lambda>c. Inl (NotFoundError (JStr ''No such resource'')))\<rparr>"

definition admin :: jsval where
  "admin = JObj [(''username'', JStr ''root''), (''isAdmin'', JBool True)]"

definition visitor :: jsval where
  "visitor = JObj [(''username'', JStr ''guest''), (''isAdmin'', JBool False)]"

definition request :: "http_method \<Rightarrow> string list \<Rightarrow> jsval \<Rightarrow> jsval \<Rightarrow> request" where
  "request m p u b = \<lparr>req_method = m, path = p, params = [], user = u, body = b, query = []\<rparr>"

section \<open>Properties of sqlForPartialUpdate\<close>

lemma enumerate_cols:
  "map (\<lambda>(idx, k). f k (idx + 1)) (enumerate n ks) =
   map (\<lambda>i. f (ks ! (i - Suc n)) i) [Suc n..<Suc n + length ks]"
proof (induction ks arbitrary: n)
  case Nil
  show ?case by simp
next
  case (Cons k ks)
  have shift: "map (\<lambda>i. f ((k # ks) ! (i - Suc n)) i) [Suc (Suc n)..<Suc (Suc n) + length ks]
             = map (\<lambda>i. f (ks ! (i - Suc (Suc n))) i) [Suc (Suc n)..<Suc (Suc n) + length ks]"
  proof (rule map_cong [OF refl])
    fix i assume "i \<in> set [Suc (Suc n)..<Suc (Suc n) + length ks]"
    then have "i - Suc n = Suc (i - Suc (Suc n))" by auto
    then show "f ((k # ks) ! (i - Suc n)) i = f (ks ! (i - Suc (Suc n))) i" by simp
  qed
  have "[Suc n..<Suc n + length (k # ks)] = Suc n # [Suc (Suc n)..<Suc (Suc n) + length ks]"
    by (subst upt_rec) simp
  then show ?case
    using Cons.IH [of "Suc n"] shift by simp
qed

lemma setCols_by_position:
  "join '', '' (map (\<lambda>(idx, colName).
       [dquote] @ col colName @ [dquote] @ ''=$'' @ decimal (idx + 1)) (enumerate 0 ks))
   = claimed_setCols col ks"
  using enumerate_cols [of "\<lambda>k i. [dquote] @ col k @ [dquote] @ ''=$'' @ decimal i" 0 ks]
  by (simp add: claimed_setCols_def)

lemma map_cols_returns:
  assumes "\<And>k i. k \<in> set ks \<Longrightarrow> f k i = Inr (g k i)"
  shows "map_cols f n ks = Inr (map (\<lambda>(idx, k). g k idx) (enumerate n ks))"
  using assms by (induction ks arbitrary: n) simp_all

lemma map_cols_throws:
  assumes "map_cols f n ks = Inl err"
  shows "\<exists>k i. k \<in> set ks \<and> f k i = Inl err"
  using assms
proof (induction ks arbitrary: n)
  case Nil
  then show ?case by simp
next
  case (Cons k ks)
  show ?case
  proof (cases "f k n")
    case (Inl e)
    then show ?thesis using Cons.prems by auto
  next
    case (Inr c)
    then have "map_cols f (n + 1) ks = Inl err"
      using Cons.prems by (simp split: sum.splits)
    then show ?thesis using Cons.IH by fastforce
  qed
qed

lemma map_cols_first_throws:
  assumes "f k n = Inl err"
  shows "map_cols f n (k # ks) = Inl err"
  using assms by simp

lemma sql_col_object:
  "sql_col eng (JObj m) k =
     (if truthy (member eng m k) then template_text eng (member eng m k) else Inr k)"
  by (simp add: sql_col_def read_member_def)

lemma sql_col_nullish:
  "jsToSql = JUndefined \<or> jsToSql = JNull \<Longrightarrow>
   sql_col eng jsToSql k = Inl (TypeError (readMessage eng jsToSql k))"
  by (auto simp: sql_col_def read_member_def)

lemma sql_col_throws_TypeError:
  "sql_col eng jsToSql k = Inl err \<Longrightarrow> \<exists>msg. err = TypeError msg"
  by (auto simp: sql_col_def read_member_def template_text_def
      split: if_splits sum.splits jsval.splits)

lemma TypeError_not_BadRequestError: "TypeError msg \<noteq> BadRequestError msg'"
  by (simp add: TypeError_def BadRequestError_def)

text \<open>
  Claim C1, as amended. For every non-empty object \<^verbatim>\<open>dataToUpdate\<close> with keys
  \<open>k1..kn\<close>, in the order \<^verbatim>\<open>Object.keys\<close> enumerates them, and every mapping object
  \<^verbatim>\<open>jsToSql\<close>, the function returns an object whose \<^verbatim>\<open>setCols\<close> is the strings
  \<^verbatim>\<open>"ci"=$i\<close> for \<open>i = 1..n\<close> joined by a comma and a space, where \<open>ci\<close> is the text
  of \<^verbatim>\<open>jsToSql[ki]\<close> (the mapping's own property, or else the member it inherits
  through its prototype chain) when that value is truthy, and \<open>ki\<close> itself otherwise,
  and whose \<^verbatim>\<open>values\<close> is the list of the values of \<^verbatim>\<open>dataToUpdate\<close> in the same key
  order, of length \<open>n\<close>. This holds provided the truthy values looked up can be
  printed by a template literal (\<open>text k\<close> is what is printed for the key \<open>k\<close>).
\<close>

theorem sqlForPartialUpdate_setCols_values:
  assumes "d \<noteq> []"
    and "\<And>k. k \<in> set (map fst d) \<Longrightarrow> truthy (member eng m k) \<Longrightarrow>
           template_text eng (member eng m k) = Inr (text k)"
  shows "sqlForPartialUpdate eng (JObj d) (JObj m) =
           Inr \<lparr>setCols = claimed_setCols
                    (\<lambda>k. if truthy (member eng m k) then text k else k) (map fst d),
                values = map snd d\<rparr>
         \<and> length (map snd d) = length (map fst d)"
proof -
  let ?col = "\<lambda>k. if truthy (member eng m k) then text k else k"
  let ?f = "\<lambda>colName idx.
              case sql_col eng (JObj m) colName of
                Inl err \<Rightarrow> Inl err
              | Inr c \<Rightarrow> Inr ([dquote] @ c @ [dquote] @ ''=$'' @ decimal (idx + 1))"
  have col: "sql_col eng (JObj m) k = Inr (?col k)" if "k \<in> set (map fst d)" for k
    using assms(2) [OF that] by (simp add: sql_col_object)
  have "map_cols ?f 0 (map fst d) =
      Inr (map (\<lambda>(idx, k). [dquote] @ ?col k @ [dquote] @ ''=$'' @ decimal (idx + 1))
             (enumerate 0 (map fst d)))"
    by (rule map_cols_returns) (simp add: col)
  then show ?thesis
    using assms(1) setCols_by_position [of ?col "map fst d"]
    by (simp add: sqlForPartialUpdate_def Let_def)
qed

theorem sqlForPartialUpdate_setCols_values_witness:
  "[(''firstName'', JStr ''John''), (''age'', JNum (Fin 30))] \<noteq> []
   \<and> sqlForPartialUpdate sample_engine
        (JObj [(''firstName'', JStr ''John''), (''age'', JNum (Fin 30))])
        (JObj [(''firstName'', JStr ''first_name''), (''age'', JStr ''age'')])
      = Inr \<lparr>setCols = [dquote] @ ''first_name'' @ [dquote] @ ''=$1, ''
                        @ [dquote] @ ''age'' @ [dquote] @ ''=$2'',
             values = [JStr ''John'', JNum (Fin 30)]\<rparr>
   \<and> sqlForPartialUpdate sample_engine (JObj [(''constructor'', JStr ''x'')]) (JObj [])
      = Inr \<lparr>setCols = [dquote] @ ''function Object() { [native code] }'' @ [dquote] @ ''=$1'',
             values = [JStr ''x'']\<rparr>"
proof -
  let ?d1 = "[(''firstName'', JStr ''John''), (''age'', JNum (Fin 30))]"
  let ?m1 = "[(''firstName'', JStr ''first_name''), (''age'', JStr ''age'')]"
  let ?t1 = "\<lambda>k. if k = ''firstName'' then ''first_name'' else ''age''"
  have ne1: "?d1 \<noteq> []" by simp
  have h1: "template_text sample_engine (member sample_engine ?m1 k) = Inr (?t1 k)"
    if "k \<in> set (map fst ?d1)" for k
    using that by (auto simp: member_def template_text_def)
  have c1: "claimed_setCols (\<lambda>k. if truthy (member sample_engine ?m1 k) then ?t1 k else k)
              (map fst ?d1)
            = [dquote] @ ''first_name'' @ [dquote] @ ''=$1, '' @ [dquote] @ ''age'' @ [dquote] @ ''=$2''"
    by (simp add: member_def claimed_setCols_def decimal.simps digit_char_def upt_rec)
  have one: "sqlForPartialUpdate sample_engine (JObj ?d1) (JObj ?m1)
      = Inr \<lparr>setCols = [dquote] @ ''first_name'' @ [dquote] @ ''=$1, ''
                        @ [dquote] @ ''age'' @ [dquote] @ ''=$2'',
             values = [JStr ''John'', JNum (Fin 30)]\<rparr>"
    using sqlForPartialUpdate_setCols_values [of ?d1 sample_engine ?m1 ?t1, OF ne1 h1] c1
    by simp
  let ?d2 = "[(''constructor'', JStr ''x'')]"
  let ?t2 = "\<lambda>k::string. ''function Object() { [native code] }''"
  have ne2: "?d2 \<noteq> []" by simp
  have h2: "template_text sample_engine (member sample_engine [] k) = Inr (?t2 k)"
    if "k \<in> set (map fst ?d2)" for k
    using that by (simp add: member_def template_text_def sample_engine_def)
  have c2: "claimed_setCols (\<lambda>k. if truthy (member sample_engine [] k) then ?t2 k else k)
              (map fst ?d2)
            = [dquote] @ ''function Object() { [native code] }'' @ [dquote] @ ''=$1''"
    by (simp add: member_def sample_engine_def claimed_setCols_def decimal.simps digit_char_def)
  have two: "sqlForPartialUpdate sample_engine (JObj ?d2) (JObj [])
      = Inr \<lparr>setCols = [dquote] @ ''function Object() { [native code] }'' @ [dquote] @ ''=$1'',
             values = [JStr ''x'']\<rparr>"
    using sqlForPartialUpdate_setCols_values [of ?d2 sample_engine "[]" ?t2, OF ne2 h2] c2
    by simp
  show ?thesis using one two by simp
qed

text \<open>
  Claim C1 as it is written fails twice. A mapping entry that is present but is the
  empty string is not used: the key itself is. And a key for which the mapping has no
  entry of its own is not always kept: for the key \<^verbatim>\<open>constructor\<close> and the mapping
  \<^verbatim>\<open>{}\<close>, the lookup finds the function \<^verbatim>\<open>Object\<close> on the prototype chain, which is
  truthy, and the column is that function's text.
\<close>

theorem sqlForPartialUpdate_claimed_col_counterexample:
  "sqlForPartialUpdate sample_engine (JObj [(''name'', JStr ''x'')]) (JObj [(''name'', JStr '''')])
     = Inr \<lparr>setCols = [dquote] @ ''name'' @ [dquote] @ ''=$1'', values = [JStr ''x'']\<rparr>
   \<and> claimed_setCols (claimed_col [(''name'', JStr '''')]) [''name'']
     = [dquote] @ [dquote] @ ''=$1''
   \<and> sqlForPartialUpdate sample_engine (JObj [(''name'', JStr ''x'')]) (JObj [(''name'', JStr '''')])
     \<noteq> Inr \<lparr>setCols = claimed_setCols (claimed_col [(''name'', JStr '''')]) [''name''],
             values = [JStr ''x'']\<rparr>
   \<and> sqlForPartialUpdate sample_engine (JObj [(''constructor'', JStr ''x'')]) (JObj [])
     = Inr \<lparr>setCols = [dquote] @ ''function Object() { [native code] }'' @ [dquote] @ ''=$1'',
            values = [JStr ''x'']\<rparr>
   \<and> claimed_setCols (claimed_col []) [''constructor'']
     = [dquote] @ ''constructor'' @ [dquote] @ ''=$1''
   \<and> sqlForPartialUpdate sample_engine (JObj [(''constructor'', JStr ''x'')]) (JObj [])
     \<noteq> Inr \<lparr>setCols = claimed_setCols (claimed_col []) [''constructor''],
             values = [JStr ''x'']\<rparr>"
  by (simp add: sqlForPartialUpdate_def sql_col_def read_member_def member_def
        template_text_def sample_engine_def claimed_setCols_def claimed_col_def
        decimal.simps digit_char_def)

lemma sqlForPartialUpdate_keys:
  assumes "own_props d \<noteq> []"
  shows "sqlForPartialUpdate eng d m =
     (case map_cols (\<lambda>colName idx.
              case sql_col eng m colName of
                Inl err \<Rightarrow> Inl err
              | Inr c \<Rightarrow> Inr ([dquote] @ c @ [dquote] @ ''=$'' @ decimal (idx + 1)))
            0 (map fst (own_props d)) of
        Inl err \<Rightarrow> Inl err
      | Inr cols \<Rightarrow> Inr \<lparr>setCols = join '', '' cols, values = map snd (own_props d)\<rparr>)"
proof -
  have "d \<noteq> JUndefined" "d \<noteq> JNull" using assms by auto
  then show ?thesis using assms by (simp add: sqlForPartialUpdate_def Let_def)
qed

lemma sqlForPartialUpdate_TypeError_only:
  assumes "own_props d \<noteq> []" and "sqlForPartialUpdate eng d m = Inl err"
  shows "\<exists>msg. err = TypeError msg"
proof -
  let ?f = "\<lambda>colName idx.
              case sql_col eng m colName of
                Inl err \<Rightarrow> Inl err
              | Inr c \<Rightarrow> Inr ([dquote] @ c @ [dquote] @ ''=$'' @ decimal (idx + 1))"
  have "map_cols ?f 0 (map fst (own_props d)) = Inl err"
    using assms by (simp add: sqlForPartialUpdate_keys split: sum.splits)
  then obtain k i where "?f k i = Inl err"
    using map_cols_throws by blast
  then have "sql_col eng m k = Inl err" by (simp split: sum.splits)
  then show ?thesis by (rule sql_col_throws_TypeError)
qed

lemma sqlForPartialUpdate_BadRequestError:
  "(\<exists>msg. sqlForPartialUpdate eng d m = Inl (BadRequestError msg))
     \<longleftrightarrow> d \<noteq> JUndefined \<and> d \<noteq> JNull \<and> own_props d = []"
proof
  assume "\<exists>msg. sqlForPartialUpdate eng d m = Inl (BadRequestError msg)"
  then obtain msg where bad: "sqlForPartialUpdate eng d m = Inl (BadRequestError msg)" by blast
  have not_nullish: "d \<noteq> JUndefined \<and> d \<noteq> JNull"
    using bad TypeError_not_BadRequestError
    by (auto simp: sqlForPartialUpdate_def)
  have "own_props d = []"
  proof (rule ccontr)
    assume "own_props d \<noteq> []"
    then obtain msg' where "BadRequestError msg = TypeError msg'"
      using sqlForPartialUpdate_TypeError_only bad by blast
    then show False using TypeError_not_BadRequestError by metis
  qed
  then show "d \<noteq> JUndefined \<and> d \<noteq> JNull \<and> own_props d = []"
    using not_nullish by simp
next
  assume "d \<noteq> JUndefined \<and> d \<noteq> JNull \<and> own_props d = []"
  then have "sqlForPartialUpdate eng d m = Inl (BadRequestError (JStr ''No data''))"
    by (simp add: sqlForPartialUpdate_def)
  then show "\<exists>msg. sqlForPartialUpdate eng d m = Inl (BadRequestError msg)"
    by blast
qed

lemma sqlForPartialUpdate_nullish_mapping:
  assumes "own_props d \<noteq> []" and "m = JUndefined \<or> m = JNull"
  shows "sqlForPartialUpdate eng d m =
           Inl (TypeError (readMessage eng m (fst (hd (own_props d)))))"
proof -
  obtain kv rest where d: "own_props d = kv # rest"
    using assms(1) by (cases "own_props d") auto
  show ?thesis
    using sql_col_nullish [OF assms(2), of eng "fst kv"]
    by (simp add: sqlForPartialUpdate_keys [OF assms(1)] d)
qed

lemma sqlForPartialUpdate_returns:
  assumes "own_props d \<noteq> []"
    and "\<forall>k\<in>set (map fst (own_props d)).
           truthy (member eng mm k) \<longrightarrow> (\<exists>s. template_text eng (member eng mm k) = Inr s)"
  shows "\<exists>r. sqlForPartialUpdate eng d (JObj mm) = Inr r"
proof (cases "sqlForPartialUpdate eng d (JObj mm)")
  case (Inr r)
  then show ?thesis by blast
next
  case (Inl err)
  let ?f = "\<lambda>colName idx.
              case sql_col eng (JObj mm) colName of
                Inl err \<Rightarrow> Inl err
              | Inr c \<Rightarrow> Inr ([dquote] @ c @ [dquote] @ ''=$'' @ decimal (idx + 1))"
  have "map_cols ?f 0 (map fst (own_props d)) = Inl err"
    using Inl assms(1) by (simp add: sqlForPartialUpdate_keys split: sum.splits)
  then obtain k i where k: "k \<in> set (map fst (own_props d))" and "?f k i = Inl err"
    using map_cols_throws by blast
  then have "sql_col eng (JObj mm) k = Inl err" by (simp split: sum.splits)
  then have "truthy (member eng mm k)" "template_text eng (member eng mm k) = Inl err"
    by (auto simp: sql_col_object split: if_splits)
  then show ?thesis using assms(2) k by fastforce
qed

text \<open>
  Claim C2, as amended. The function throws a \<^verbatim>\<open>BadRequestError\<close> if and only if
  \<^verbatim>\<open>dataToUpdate\<close> is neither \<^verbatim>\<open>undefined\<close> nor \<^verbatim>\<open>null\<close> and has no keys. For a
  \<^verbatim>\<open>dataToUpdate\<close> with at least one key, it throws a TypeError (on reading the first
  key) when \<^verbatim>\<open>jsToSql\<close> is \<^verbatim>\<open>undefined\<close>, \<^verbatim>\<open>null\<close> or omitted, and it returns
  normally when \<^verbatim>\<open>jsToSql\<close> is an object whose truthy looked-up members can be printed
  by a template literal.
\<close>

theorem sqlForPartialUpdate_throws:
  "((\<exists>msg. sqlForPartialUpdate eng d m = Inl (BadRequestError msg))
      \<longleftrightarrow> d \<noteq> JUndefined \<and> d \<noteq> JNull \<and> own_props d = [])
   \<and> (own_props d \<noteq> [] \<and> (m = JUndefined \<or> m = JNull) \<longrightarrow>
        sqlForPartialUpdate eng d m = Inl (TypeError (readMessage eng m (fst (hd (own_props d))))))
   \<and> (own_props d \<noteq> [] \<and> m = JObj mm
        \<and> (\<forall>k\<in>set (map fst (own_props d)).
              truthy (member eng mm k) \<longrightarrow> (\<exists>s. template_text eng (member eng mm k) = Inr s)) \<longrightarrow>
        (\<exists>r. sqlForPartialUpdate eng d m = Inr r))"
  using sqlForPartialUpdate_BadRequestError [of eng d m]
    sqlForPartialUpdate_nullish_mapping [of d m eng]
    sqlForPartialUpdate_returns [of d eng mm]
  by blast

theorem sqlForPartialUpdate_throws_witness:
  "(\<exists>msg. sqlForPartialUpdate sample_engine (JObj []) (JObj []) = Inl (BadRequestError msg))
   \<and> own_props (JObj [(''age'', JNum (Fin 30))]) \<noteq> []
   \<and> sqlForPartialUpdate sample_engine (JObj [(''age'', JNum (Fin 30))]) JNull
       = Inl (TypeError (readMessage sample_engine JNull ''age''))
   \<and> (\<exists>r. sqlForPartialUpdate sample_engine (JObj [(''age'', JNum (Fin 30))])
              (JObj [(''age'', JStr ''age'')]) = Inr r)"
proof -
  have p: "\<forall>k\<in>set (map fst (own_props (JObj [(''age'', JNum (Fin 30))]))).
       truthy (member sample_engine [(''age'', JStr ''age'')] k) \<longrightarrow>
       (\<exists>s. template_text sample_engine (member sample_engine [(''age'', JStr ''age'')] k) = Inr s)"
    by (simp add: member_def template_text_def)
  show ?thesis
    using sqlForPartialUpdate_throws [of sample_engine "JObj []" "JObj []" "[]"]
      sqlForPartialUpdate_throws [of sample_engine "JObj [(''age'', JNum (Fin 30))]" JNull "[]"]
      sqlForPartialUpdate_throws [of sample_engine "JObj [(''age'', JNum (Fin 30))]"
        "JObj [(''age'', JStr ''age'')]" "[(''age'', JStr ''age'')]"] p
    by simp
qed

text \<open>
  Claim C2 as it is written fails: with one key to update and \<^verbatim>\<open>jsToSql\<close> omitted
  (\<^verbatim>\<open>undefined\<close>), the function does not return: \<^verbatim>\<open>jsToSql[colName]\<close> throws a
  TypeError.
\<close>

theorem sqlForPartialUpdate_missing_mapping_counterexample:
  "own_props (JObj [(''firstName'', JStr ''John'')]) \<noteq> []
   \<and> sqlForPartialUpdate sample_engine (JObj [(''firstName'', JStr ''John'')]) JUndefined
       = Inl (TypeError (readMessage sample_engine JUndefined ''firstName''))
   \<and> isl (sqlForPartialUpdate sample_engine (JObj [(''firstName'', JStr ''John'')]) JUndefined)"
  by (simp add: sqlForPartialUpdate_def sql_col_def read_member_def)

section \<open>The application's pipeline\<close>

lemma on_next_final: "snd res \<noteq> Next \<Longrightarrow> on_next res rest = res"
  by (cases "snd res") (simp_all add: on_next_def)

lemma on_next_Next: "on_next (evs, Next) rest = (evs @ fst rest, snd rest)"
  by (simp add: on_next_def)

lemma first_match_in: "first_match dec rs m p = Found (r, ps) \<Longrightarrow> r \<in> set rs"
  by (induction rs) (auto split: if_splits found.splits)

lemma resolve_in:
  "resolve dec ms m p = Found (r, ps) \<Longrightarrow> \<exists>prefix rs. (prefix, rs) \<in> set ms \<and> r \<in> set rs"
proof (induction ms)
  case Nil
  then show ?case by simp
next
  case (Cons a ms)
  then show ?case
    by (cases a) (auto split: list.splits if_splits found.splits dest: first_match_in)
qed

lemmas handler_defs =
  jobs_post_def jobs_get_def jobs_get_id_def jobs_patch_id_def jobs_delete_id_def
  users_post_def users_get_def users_get_username_def users_patch_username_def
  users_delete_username_def users_post_username_jobs_id_def
  companies_post_def companies_get_def companies_get_handle_def companies_patch_handle_def
  companies_delete_handle_def auth_post_token_def auth_post_register_def

lemmas combinator_defs = validated_def await_def send_def send_json_def Let_def

lemmas routes_defs = mounts_def jobsRoutes_def usersRoutes_def companiesRoutes_def authRoutes_def

lemma handlers_not_next:
  "snd (jobs_post env req) \<noteq> Next"
  "snd (jobs_get env req) \<noteq> Next"
  "snd (jobs_get_id env req) \<noteq> Next"
  "snd (jobs_patch_id env req) \<noteq> Next"
  "snd (jobs_delete_id env req) \<noteq> Next"
  "snd (users_post env req) \<noteq> Next"
  "snd (users_get env req) \<noteq> Next"
  "snd (users_get_username env req) \<noteq> Next"
  "snd (users_patch_username env req) \<noteq> Next"
  "snd (users_delete_username env req) \<noteq> Next"
  "snd (users_post_username_jobs_id env req) \<noteq> Next"
  "snd (companies_post env req) \<noteq> Next"
  "snd (companies_get env req) \<noteq> Next"
  "snd (companies_get_handle env req) \<noteq> Next"
  "snd (companies_patch_handle env req) \<noteq> Next"
  "snd (companies_delete_handle env req) \<noteq> Next"
  "snd (auth_post_token env req) \<noteq> Next"
  "snd (auth_post_register env req) \<noteq> Next"
  by (simp_all add: handler_defs combinator_defs split: sum.splits)

lemma terminal_single: "(\<And>env req. snd (h env req) \<noteq> Next) \<Longrightarrow> terminal [(n, h)]"
  by (simp add: terminal_def on_next_final)

lemma terminal_guarded:
  "(\<And>env req. snd (h env req) \<noteq> Next) \<Longrightarrow> terminal [(g, guard), (n, h)]"
  by (auto simp: terminal_def on_next_def on_next_final split: outcome.splits)

lemma terminal_mounts: "\<forall>(prefix, rs)\<in>set mounts. \<forall>r\<in>set rs. terminal (handlers r)"
  by (simp add: routes_defs terminal_single terminal_guarded handlers_not_next)

lemma router_first_match:
  assumes "\<forall>r\<in>set rs. terminal (handlers r)"
  shows "router rs env req p =
           (case first_match (decodeURIComponent env) rs (req_method req) p of
              Unmatched \<Rightarrow> ([], Next)
            | Undecodable val \<Rightarrow> ([], NextErr (decode_failed val))
            | Found (r, ps) \<Rightarrow> run_stack env (req\<lparr>params := ps\<rparr>) (handlers r))"
  using assms
proof (induction rs)
  case Nil
  show ?case by simp
next
  case (Cons r rs)
  then have t: "\<And>env req. snd (run_stack env req (handlers r)) \<noteq> Next"
    by (simp add: terminal_def)
  show ?case
    using Cons by (simp add: on_next_final [OF t] split: found.splits)
qed

lemma use_routers_resolve:
  assumes "\<forall>(prefix, rs)\<in>set ms. \<forall>r\<in>set rs. terminal (handlers r)"
  shows "use_routers ms env req =
           (case resolve (decodeURIComponent env) ms (req_method req) (path req) of
              Unmatched \<Rightarrow> ([], Next)
            | Undecodable val \<Rightarrow> ([], NextErr (decode_failed val))
            | Found (r, ps) \<Rightarrow> run_stack env (req\<lparr>params := ps\<rparr>) (handlers r))"
  using assms
proof (induction ms)
  case Nil
  show ?case by simp
next
  case (Cons m ms)
  obtain prefix rs where m: "m = (prefix, rs)" by (cases m)
  have rs: "\<forall>r\<in>set rs. terminal (handlers r)" using Cons.prems m by auto
  have ih: "use_routers ms env req =
           (case resolve (decodeURIComponent env) ms (req_method req) (path req) of
              Unmatched \<Rightarrow> ([], Next)
            | Undecodable val \<Rightarrow> ([], NextErr (decode_failed val))
            | Found (r, ps) \<Rightarrow> run_stack env (req\<lparr>params := ps\<rparr>) (handlers r))"
    using Cons by auto
  show ?case
  proof (cases "path req")
    case Nil
    then show ?thesis using ih m by simp
  next
    case (Cons x rest)
    show ?thesis
    proof (cases "lower x = lower prefix")
      case False
      then show ?thesis using ih m Cons by simp
    next
      case True
      show ?thesis
      proof (cases "first_match (decodeURIComponent env) rs (req_method req) rest")
        case Unmatched
        then show ?thesis
          using ih m Cons True router_first_match [OF rs, of env req rest]
          by (simp add: on_next_Next)
      next
        case (Undecodable val)
        then show ?thesis
          using m Cons True router_first_match [OF rs, of env req rest]
          by (simp add: on_next_def)
      next
        case (Found found)
        obtain r ps where f: "found = (r, ps)" by (cases found)
        have "r \<in> set rs" using Found f first_match_in by simp
        then have "terminal (handlers r)" using rs by simp
        then have "snd (run_stack env (req\<lparr>params := ps\<rparr>) (handlers r)) \<noteq> Next"
          by (simp add: terminal_def)
        then show ?thesis
          using m Cons True Found f router_first_match [OF rs, of env req rest]
          by (simp add: on_next_final)
      qed
    qed
  qed
qed

lemma route_handlers_eq:
  "route_handlers =
    [(Route POST ''/auth/token'', auth_post_token),
     (Route POST ''/auth/register'', auth_post_register),
     (Route POST ''/companies'', companies_post),
     (Route GET ''/companies'', companies_get),
     (Route GET ''/companies/:handle'', companies_get_handle),
     (Route PATCH ''/companies/:handle'', companies_patch_handle),
     (Route DELETE ''/companies/:handle'', companies_delete_handle),
     (Route POST ''/users'', users_post),
     (Route GET ''/users'', users_get),
     (Route GET ''/users/:username'', users_get_username),
     (Route PATCH ''/users/:username'', users_patch_username),
     (Route DELETE ''/users/:username'', users_delete_username),
     (Route POST ''/users/:username/jobs/:id'', users_post_username_jobs_id),
     (Route POST ''/jobs'', jobs_post),
     (Route GET ''/jobs'', jobs_get),
     (Route GET ''/jobs/:id'', jobs_get_id),
     (Route PATCH ''/jobs/:id'', jobs_patch_id),
     (Route DELETE ''/jobs/:id'', jobs_delete_id)]"
  by (simp add: route_handlers_def routes_defs)

lemma route_handlers_induct [consumes 1]:
  assumes "(n, h) \<in> set route_handlers"
    and "P (Route POST ''/auth/token'') auth_post_token"
    and "P (Route POST ''/auth/register'') auth_post_register"
    and "P (Route POST ''/companies'') companies_post"
    and "P (Route GET ''/companies'') companies_get"
    and "P (Route GET ''/companies/:handle'') companies_get_handle"
    and "P (Route PATCH ''/companies/:handle'') companies_patch_handle"
    and "P (Route DELETE ''/companies/:handle'') companies_delete_handle"
    and "P (Route POST ''/users'') users_post"
    and "P (Route GET ''/users'') users_get"
    and "P (Route GET ''/users/:username'') users_get_username"
    and "P (Route PATCH ''/users/:username'') users_patch_username"
    and "P (Route DELETE ''/users/:username'') users_delete_username"
    and "P (Route POST ''/users/:username/jobs/:id'') users_post_username_jobs_id"
    and "P (Route POST ''/jobs'') jobs_post"
    and "P (Route GET ''/jobs'') jobs_get"
    and "P (Route GET ''/jobs/:id'') jobs_get_id"
    and "P (Route PATCH ''/jobs/:id'') jobs_patch_id"
    and "P (Route DELETE ''/jobs/:id'') jobs_delete_id"
  shows "P n h"
proof -
  have "\<forall>(n, h)\<in>set route_handlers. P n h"
    unfolding route_handlers_eq using assms(2-) by simp
  then show ?thesis using assms(1) by blast
qed

lemma route_handlers_not_next: "(n, h) \<in> set route_handlers \<Longrightarrow> snd (h env req) \<noteq> Next"
  by (erule route_handlers_induct) (rule handlers_not_next)+

lemma app_preflight:
  "req_method req = OPTIONS \<Longrightarrow> app env req = \<lparr>response = preflight, trace = [Ran Mw_cors]\<rparr>"
  by (simp add: app_def cors_def respond_def preflight_def)

lemma app_resolve:
  assumes "req_method req \<noteq> OPTIONS"
  shows "app env req =
     (case resolve (decodeURIComponent env) mounts (req_method req) (path req) of
        Unmatched \<Rightarrow> \<lparr>response = errorHandler (notFound env req),
                       trace = [Ran NotFound404, Ran ErrorHandler]\<rparr>
      | Undecodable val \<Rightarrow> \<lparr>response = errorHandler (decode_failed val),
                            trace = [Ran ErrorHandler]\<rparr>
      | Found (r, ps) \<Rightarrow> respond env req (run_stack env (req\<lparr>params := ps\<rparr>) (handlers r)))"
proof (cases "resolve (decodeURIComponent env) mounts (req_method req) (path req)")
  case Unmatched
  then show ?thesis
    using assms
    by (simp add: app_def cors_def use_routers_resolve [OF terminal_mounts] respond_def)
next
  case (Undecodable val)
  then show ?thesis
    using assms
    by (simp add: app_def cors_def use_routers_resolve [OF terminal_mounts] respond_def)
next
  case (Found found)
  then show ?thesis
    using assms
    by (cases found) (simp add: app_def cors_def use_routers_resolve [OF terminal_mounts])
qed

lemma run_single:
  "snd (h env req) \<noteq> Next \<Longrightarrow> run_stack env req [(n, h)] = (Ran n # fst (h env req), snd (h env req))"
  by (simp add: on_next_final)

lemma run_auth_ensureAdmin:
  assumes "snd (h env req) \<noteq> Next"
  shows "run_stack env req [(Mw_ensureAdmin, auth_ensureAdmin), (n, h)] =
     (if is_admin req
      then (Ran Mw_ensureAdmin # Ran n # fst (h env req), snd (h env req))
      else ([Ran Mw_ensureAdmin], NextErr (authorizationError env req)))"
proof -
  have single: "run_stack env req [(n, h)] = (Ran n # fst (h env req), snd (h env req))"
    using assms by (rule run_single)
  have "run_stack env req [(Mw_ensureAdmin, auth_ensureAdmin), (n, h)] =
      on_next (Ran Mw_ensureAdmin # fst (auth_ensureAdmin env req),
               snd (auth_ensureAdmin env req))
        (run_stack env req [(n, h)])"
    by (subst run_stack.simps) (rule refl)
  then show ?thesis
    unfolding single
    by (simp add: auth_ensureAdmin_def on_next_def)
qed

lemma run_ensureCorrectUserOrAdmin:
  assumes "snd (h env req) \<noteq> Next"
  shows "run_stack env req [(Mw_ensureCorrectUserOrAdmin, ensureCorrectUserOrAdmin), (n, h)] =
     (if correctUserOrAdmin env req
      then (Ran Mw_ensureCorrectUserOrAdmin # Ran n # fst (h env req), snd (h env req))
      else ([Ran Mw_ensureCorrectUserOrAdmin], NextErr (authorizationError env req)))"
proof -
  have single: "run_stack env req [(n, h)] = (Ran n # fst (h env req), snd (h env req))"
    using assms by (rule run_single)
  have "run_stack env req [(Mw_ensureCorrectUserOrAdmin, ensureCorrectUserOrAdmin), (n, h)] =
      on_next (Ran Mw_ensureCorrectUserOrAdmin # fst (ensureCorrectUserOrAdmin env req),
               snd (ensureCorrectUserOrAdmin env req)) (run_stack env req [(n, h)])"
    by (subst run_stack.simps) (rule refl)
  then show ?thesis
    unfolding single
    by (simp add: ensureCorrectUserOrAdmin_def on_next_def)
qed

lemma stack_shapes:
  assumes "(prefix, rs) \<in> set mounts" and "r \<in> set rs"
  obtains n h where "(n, h) \<in> set route_handlers"
    and "handlers r = [(n, h)]
          \<or> handlers r = [(Mw_ensureAdmin, auth_ensureAdmin), (n, h)]
          \<or> handlers r = [(Mw_ensureCorrectUserOrAdmin, ensureCorrectUserOrAdmin), (n, h)]"
proof -
  have "\<forall>(prefix, rs)\<in>set mounts. \<forall>r\<in>set rs.
         handlers r \<noteq> [] \<and> last (handlers r) \<in> set route_handlers \<and>
         (butlast (handlers r) = []
            \<or> butlast (handlers r) = [(Mw_ensureAdmin, auth_ensureAdmin)]
            \<or> butlast (handlers r) = [(Mw_ensureCorrectUserOrAdmin, ensureCorrectUserOrAdmin)])"
    unfolding route_handlers_eq by (simp add: routes_defs)
  then have ne: "handlers r \<noteq> []" and l: "last (handlers r) \<in> set route_handlers"
    and b: "butlast (handlers r) = []
            \<or> butlast (handlers r) = [(Mw_ensureAdmin, auth_ensureAdmin)]
            \<or> butlast (handlers r) = [(Mw_ensureCorrectUserOrAdmin, ensureCorrectUserOrAdmin)]"
    using assms by blast+
  obtain n h where nh: "last (handlers r) = (n, h)" by (cases "last (handlers r)")
  have "handlers r = butlast (handlers r) @ [(n, h)]"
    using ne nh append_butlast_last_id [of "handlers r"] by simp
  then have "handlers r = [(n, h)]
          \<or> handlers r = [(Mw_ensureAdmin, auth_ensureAdmin), (n, h)]
          \<or> handlers r = [(Mw_ensureCorrectUserOrAdmin, ensureCorrectUserOrAdmin), (n, h)]"
    using b by auto
  then show ?thesis using that l nh by simp
qed

lemma app_cases [case_names preflight unmatched undecodable refused handled]:
  assumes "req_method req = OPTIONS \<Longrightarrow> Q \<lparr>response = preflight, trace = [Ran Mw_cors]\<rparr>"
    and "req_method req \<noteq> OPTIONS \<Longrightarrow>
           resolve (decodeURIComponent env) mounts (req_method req) (path req) = Unmatched \<Longrightarrow>
             Q \<lparr>response = errorHandler (notFound env req),
                trace = [Ran NotFound404, Ran ErrorHandler]\<rparr>"
    and "\<And>val. req_method req \<noteq> OPTIONS \<Longrightarrow>
           resolve (decodeURIComponent env) mounts (req_method req) (path req) = Undecodable val \<Longrightarrow>
             Q \<lparr>response = errorHandler (decode_failed val), trace = [Ran ErrorHandler]\<rparr>"
    and "\<And>r ps guard. req_method req \<noteq> OPTIONS \<Longrightarrow>
           resolve (decodeURIComponent env) mounts (req_method req) (path req) = Found (r, ps) \<Longrightarrow>
           guard = Mw_ensureAdmin \<and> \<not> is_admin req
             \<or> guard = Mw_ensureCorrectUserOrAdmin
                 \<and> \<not> correctUserOrAdmin env (req\<lparr>params := ps\<rparr>) \<Longrightarrow>
           fst (hd (handlers r)) = guard \<Longrightarrow>
           Q \<lparr>response = errorHandler (authorizationError env (req\<lparr>params := ps\<rparr>)),
              trace = [Ran guard, Ran ErrorHandler]\<rparr>"
    and "\<And>r ps guards n h. req_method req \<noteq> OPTIONS \<Longrightarrow>
           resolve (decodeURIComponent env) mounts (req_method req) (path req) = Found (r, ps) \<Longrightarrow>
           (n, h) \<in> set route_handlers \<Longrightarrow>
           map fst (handlers r) = guards @ [n] \<Longrightarrow>
           guards = [] \<or> guards = [Mw_ensureAdmin] \<and> is_admin req
             \<or> guards = [Mw_ensureCorrectUserOrAdmin] \<Longrightarrow>
           Q (respond env req
                (map Ran guards @ Ran n # fst (h env (req\<lparr>params := ps\<rparr>)),
                 snd (h env (req\<lparr>params := ps\<rparr>))))"
  shows "Q (app env req)"
proof (cases "req_method req = OPTIONS")
  case True
  then show ?thesis using assms(1) by (simp add: app_preflight)
next
  case not_options: False
  show ?thesis
  proof (cases "resolve (decodeURIComponent env) mounts (req_method req) (path req)")
    case Unmatched
    then show ?thesis using assms(2) not_options by (simp add: app_resolve)
  next
    case (Undecodable val)
    then show ?thesis using assms(3) not_options by (simp add: app_resolve)
  next
    case (Found found)
    obtain r ps where found: "found = (r, ps)" by (cases found)
    let ?req = "req\<lparr>params := ps\<rparr>"
    have res: "resolve (decodeURIComponent env) mounts (req_method req) (path req) = Found (r, ps)"
      using Found found by simp
    have app: "app env req = respond env req (run_stack env ?req (handlers r))"
      using res not_options by (simp add: app_resolve)
    obtain prefix rs where "(prefix, rs) \<in> set mounts" "r \<in> set rs"
      using resolve_in res by blast
    then obtain n h where nh: "(n, h) \<in> set route_handlers"
      and shape: "handlers r = [(n, h)]
              \<or> handlers r = [(Mw_ensureAdmin, auth_ensureAdmin), (n, h)]
              \<or> handlers r = [(Mw_ensureCorrectUserOrAdmin, ensureCorrectUserOrAdmin), (n, h)]"
      by (rule stack_shapes)
    have nn: "snd (h env ?req) \<noteq> Next" using nh by (rule route_handlers_not_next)
    have adm: "is_admin ?req = is_admin req" by (simp add: is_admin_def)
    from shape consider
        (single) "handlers r = [(n, h)]"
      | (admin) "handlers r = [(Mw_ensureAdmin, auth_ensureAdmin), (n, h)]"
      | (user) "handlers r = [(Mw_ensureCorrectUserOrAdmin, ensureCorrectUserOrAdmin), (n, h)]"
      by blast
    then show ?thesis
    proof cases
      case single
      have "run_stack env ?req (handlers r) = (Ran n # fst (h env ?req), snd (h env ?req))"
        unfolding single using run_single [of h env ?req n] nn by simp
      then show ?thesis
        using assms(5) [OF not_options res nh, of "[]"] single app by simp
    next
      case admin
      have run: "run_stack env ?req (handlers r) =
         (if is_admin req
          then (Ran Mw_ensureAdmin # Ran n # fst (h env ?req), snd (h env ?req))
          else ([Ran Mw_ensureAdmin], NextErr (authorizationError env ?req)))"
        unfolding admin using run_auth_ensureAdmin [of h env ?req n] nn adm by simp
      show ?thesis
      proof (cases "is_admin req")
        case True
        then show ?thesis
          using assms(5) [OF not_options res nh, of "[Mw_ensureAdmin]"] admin app run by simp
      next
        case False
        then show ?thesis
          using assms(4) [OF not_options res, of Mw_ensureAdmin] admin app run
          by (simp add: respond_def)
      qed
    next
      case user
      have run: "run_stack env ?req (handlers r) =
         (if correctUserOrAdmin env ?req
          then (Ran Mw_ensureCorrectUserOrAdmin # Ran n # fst (h env ?req), snd (h env ?req))
          else ([Ran Mw_ensureCorrectUserOrAdmin], NextErr (authorizationError env ?req)))"
        unfolding user using run_ensureCorrectUserOrAdmin [of h env ?req n] nn by simp
      show ?thesis
      proof (cases "correctUserOrAdmin env ?req")
        case True
        then show ?thesis
          using assms(5) [OF not_options res nh, of "[Mw_ensureCorrectUserOrAdmin]"] user app run
          by simp
      next
        case False
        then show ?thesis
          using assms(4) [OF not_options res, of Mw_ensureCorrectUserOrAdmin] user app run
          by (simp add: respond_def)
      qed
    qed
  qed
qed

lemma ran_append: "ran (xs @ ys) = ran xs @ ran ys"
  by (induction xs rule: ran.induct) simp_all

lemma calls_append: "calls (xs @ ys) = calls xs @ calls ys"
  by (induction xs rule: calls.induct) simp_all

lemma ran_map_Ran: "ran (map Ran ls) = ls"
  by (induction ls) simp_all

lemma calls_map_Ran: "calls (map Ran ls) = []"
  by (induction ls) simp_all

lemma handler_is_route: "(n, h) \<in> set route_handlers \<Longrightarrow> \<exists>m p. n = Route m p"
  by (induct n h rule: route_handlers_induct) simp_all

lemma handler_no_ran: "(n, h) \<in> set route_handlers \<Longrightarrow> ran (fst (h env req)) = []"
  by (induct n h rule: route_handlers_induct)
     (simp_all add: handler_defs combinator_defs split: sum.splits)

lemma handler_sends:
  "(n, h) \<in> set route_handlers \<Longrightarrow> snd (h env req) = Sent r \<Longrightarrow> success r"
  by (induct n h rule: route_handlers_induct)
     (auto simp: handler_defs combinator_defs success_def split: sum.splits if_splits)

lemma sender_handled:
  assumes "(n, h) \<in> set route_handlers"
  shows "sender (respond env req (map Ran guards @ Ran n # fst (h env req'), snd (h env req')))
         = (case snd (h env req') of Sent r \<Rightarrow> n | _ \<Rightarrow> ErrorHandler)"
  using handler_no_ran [OF assms, of env req']
  by (simp add: sender_def respond_def ran_append ran_map_Ran split: outcome.splits)

lemma respond_validate:
  "Validate inst sch \<in> set (trace (respond env req (evs, out))) \<longleftrightarrow> Validate inst sch \<in> set evs"
  by (cases out) (auto simp: respond_def)

lemma respond_call:
  "Call c \<in> set (trace (respond env req (evs, out))) \<longleftrightarrow> Call c \<in> set evs"
  by (cases out) (auto simp: respond_def)

lemma respond_calls: "calls (trace (respond env req (evs, out))) = calls evs"
  by (cases out) (simp_all add: respond_def calls_append)

lemma respond_ran:
  "ran (trace (respond env req (evs, out))) =
     ran evs @ (case out of Next \<Rightarrow> [NotFound404, ErrorHandler]
                | NextErr err \<Rightarrow> [ErrorHandler] | Sent r \<Rightarrow> [])"
  by (cases out) (simp_all add: respond_def ran_append)

lemma respond_response:
  "response (respond env req (evs, out)) =
     (case out of Next \<Rightarrow> errorHandler (notFound env req)
      | NextErr err \<Rightarrow> errorHandler err | Sent r \<Rightarrow> r)"
  by (cases out) (simp_all add: respond_def)

lemma lower_prefixes:
  "lower ''auth'' = ''auth''" "lower ''companies'' = ''companies''"
  "lower ''users'' = ''users''" "lower ''jobs'' = ''jobs''"
  "lower ''token'' = ''token''" "lower ''register'' = ''register''"
  by (simp_all add: lower_def lower_char_def)

section \<open>Properties of the application\<close>

lemma success_not_error: "success r \<Longrightarrow> \<not> error_response r"
  by (auto simp: success_def error_response_def)

lemma errorHandler_error: "error_response (errorHandler err)"
  by (simp add: errorHandler_def Let_def error_response_def)

lemma preflight_not_error: "\<not> error_response preflight"
  by (simp add: preflight_def error_response_def)

text \<open>
  Claim C3. Every error response of the application (a body with an \<^verbatim>\<open>error\<close> member,
  or a status from 400 on) is sent by the centralized error handler, as
  \<^verbatim>\<open>{ error: { message, status } }\<close>. What anything else sends is not an error
  response: \<^verbatim>\<open>cors\<close> answers an \<^verbatim>\<open>OPTIONS\<close> request with 204, and a route handler
  sends a success response (status 200 or 201, no \<^verbatim>\<open>error\<close> member). The guards are
  those of middleware/auth.js, as the specification describes them.
\<close>

theorem error_responses_centralized:
  "(error_response (response (app env req)) \<longrightarrow>
      sender (app env req) = ErrorHandler
      \<and> (\<exists>err. response (app env req) = errorHandler err))
   \<and> (sender (app env req) \<noteq> ErrorHandler \<longrightarrow>
      \<not> error_response (response (app env req))
      \<and> (sender (app env req) = Mw_cors \<and> response (app env req) = preflight
         \<or> (\<exists>m p. sender (app env req) = Route m p) \<and> success (response (app env req))))"
proof (induct rule: app_cases [of req _ env])
  case preflight
  show ?case by (simp add: sender_def preflight_not_error)
next
  case unmatched
  show ?case by (auto simp: sender_def)
next
  case (undecodable val)
  show ?case by (auto simp: sender_def)
next
  case (refused r ps guard)
  show ?case by (auto simp: sender_def)
next
  case (handled r ps guards n h)
  let ?out = "snd (h env (req\<lparr>params := ps\<rparr>))"
  note s = sender_handled [OF handled(3), of env req guards "req\<lparr>params := ps\<rparr>"]
  show ?case
  proof (cases ?out)
    case Next
    then show ?thesis using route_handlers_not_next [OF handled(3)] by simp
  next
    case (NextErr err)
    then show ?thesis using s by (auto simp: respond_def)
  next
    case (Sent r)
    then show ?thesis
      using s handler_is_route [OF handled(3)] handler_sends [OF handled(3) Sent]
      by (auto simp: respond_def success_not_error)
  qed
qed

theorem error_responses_centralized_witness:
  "error_response (response (app rejecting (request POST [''jobs''] admin (JObj []))))
   \<and> sender (app rejecting (request POST [''jobs''] admin (JObj []))) = ErrorHandler
   \<and> error_response (response (app accepting (request POST [''jobs''] visitor (JObj []))))
   \<and> sender (app accepting (request POST [''jobs''] visitor (JObj []))) = ErrorHandler
   \<and> sender (app accepting (request POST [''jobs''] admin (JObj []))) \<noteq> ErrorHandler
   \<and> \<not> error_response (response (app accepting (request POST [''jobs''] admin (JObj []))))
   \<and> sender (app accepting (request OPTIONS [''jobs''] JUndefined JUndefined)) \<noteq> ErrorHandler
   \<and> \<not> error_response (response (app accepting (request OPTIONS [''jobs''] JUndefined JUndefined)))"
proof -
  have e1: "error_response (response (app rejecting (request POST [''jobs''] admin (JObj []))))"
    by (simp add: app_def cors_def respond_def routes_defs request_def accepting_def
          rejecting_def admin_def auth_ensureAdmin_def is_admin_def on_next_def jobs_post_def
          combinator_defs lower_prefixes handles_def errorHandler_error)
  have e2: "error_response (response (app accepting (request POST [''jobs''] visitor (JObj []))))"
    by (simp add: app_def cors_def respond_def routes_defs request_def accepting_def
          visitor_def auth_ensureAdmin_def is_admin_def on_next_def
          lower_prefixes handles_def errorHandler_error)
  have s3: "sender (app accepting (request POST [''jobs''] admin (JObj []))) \<noteq> ErrorHandler"
    by (simp add: app_def cors_def respond_def routes_defs request_def accepting_def
          admin_def auth_ensureAdmin_def is_admin_def on_next_def jobs_post_def
          combinator_defs lower_prefixes handles_def sender_def)
  have s4: "sender (app accepting (request OPTIONS [''jobs''] JUndefined JUndefined)) \<noteq> ErrorHandler"
    by (simp add: app_def cors_def respond_def request_def sender_def)
  have p1: "sender (app rejecting (request POST [''jobs''] admin (JObj []))) = ErrorHandler"
    using e1 error_responses_centralized [of rejecting "request POST [''jobs''] admin (JObj [])"]
    by blast
  have p2: "sender (app accepting (request POST [''jobs''] visitor (JObj []))) = ErrorHandler"
    using e2 error_responses_centralized [of accepting "request POST [''jobs''] visitor (JObj [])"]
    by blast
  have p3: "\<not> error_response (response (app accepting (request POST [''jobs''] admin (JObj []))))"
    using s3 error_responses_centralized [of accepting "request POST [''jobs''] admin (JObj [])"]
    by blast
  have p4: "\<not> error_response (response (app accepting (request OPTIONS [''jobs''] JUndefined JUndefined)))"
    using s4 error_responses_centralized [of accepting "request OPTIONS [''jobs''] JUndefined JUndefined"]
    by blast
  show ?thesis using e1 e2 s3 s4 p1 p2 p3 p4 by simp
qed

text \<open>
  Claim C4, as amended. For every error that reaches the centralized handler without a
  status of its own (\<^verbatim>\<open>err.status\<close> undefined, or falsy), the response has status 500 and
  the body \<^verbatim>\<open>{ error: { message, status: 500 } }\<close>, where \<^verbatim>\<open>message\<close> is the error's own
  message, passed on unchanged.
\<close>

theorem errorHandler_without_status:
  assumes "\<not> truthy (status err)"
  shows "errorHandler err =
           \<lparr>statusCode = JNum (Fin 500),
            json = JObj [(''error'', JObj [(''message'', message err),
                                           (''status'', JNum (Fin 500))])]\<rparr>
         \<and> get_prop (get_prop (json (errorHandler err)) ''error'') ''message'' = message err"
  using assms by (simp add: errorHandler_def Let_def)

theorem errorHandler_without_status_witness:
  "\<not> truthy (status \<lparr>status = JUndefined, message = JStr ''connect ECONNREFUSED 127.0.0.1:5432''\<rparr>)
   \<and> errorHandler \<lparr>status = JUndefined, message = JStr ''connect ECONNREFUSED 127.0.0.1:5432''\<rparr> =
       \<lparr>statusCode = JNum (Fin 500),
        json = JObj [(''error'', JObj [(''message'', JStr ''connect ECONNREFUSED 127.0.0.1:5432''),
                                       (''status'', JNum (Fin 500))])]\<rparr>"
  using errorHandler_without_status
    [of "\<lparr>status = JUndefined, message = JStr ''connect ECONNREFUSED 127.0.0.1:5432''\<rparr>"]
  by simp

text \<open>
  Claim C4 as it is written fails: when a model operation throws an error without a
  status, the body of the 500 response carries that error's own message, not a generic
  one.
\<close>

theorem error_message_exposed_counterexample:
  "response (app failing (request GET [''jobs'', ''7''] JUndefined JUndefined)) =
     \<lparr>statusCode = JNum (Fin 500),
      json = JObj [(''error'', JObj [(''message'', JStr ''connect ECONNREFUSED 127.0.0.1:5432''),
                                     (''status'', JNum (Fin 500))])]\<rparr>
   \<and> run failing (Job_get (JStr ''7''))
       = Inl \<lparr>status = JUndefined, message = JStr ''connect ECONNREFUSED 127.0.0.1:5432''\<rparr>
   \<and> trace (app failing (request GET [''jobs'', ''7''] JUndefined JUndefined)) =
       [Ran (Route GET ''/jobs/:id''), Call (Job_get (JStr ''7'')), Ran ErrorHandler]"
  by (simp add: app_def cors_def respond_def routes_defs request_def accepting_def failing_def
        on_next_def jobs_get_id_def combinator_defs param_def errorHandler_def
        lower_prefixes handles_def)

subsection \<open>The admin guard\<close>





subsection \<open>Validation\<close>

lemma handler_validation:
  assumes "(n, h) \<in> set route_handlers"
    and "Validate inst sch \<in> set (fst (h env req))"
    and "\<not> valid (validate env inst sch)"
  shows "snd (h env req) =
           NextErr (BadRequestError (JArr (map (\<lambda>e. JStr (stack e)) (errors (validate env inst sch)))))
         \<and> calls (fst (h env req)) = []"
  using assms
  by (induct n h rule: route_handlers_induct)
     (auto simp: handler_defs combinator_defs split: sum.splits if_splits)

lemma errorHandler_BadRequestError:
  "errorHandler (BadRequestError msg) =
     \<lparr>statusCode = JNum (Fin 400),
      json = JObj [(''error'', JObj [(''message'', msg), (''status'', JNum (Fin 400))])]\<rparr>"
  by (simp add: errorHandler_def BadRequestError_def Let_def)

lemma validation_failure:
  assumes "Validate inst sch \<in> set (trace (app env req))"
    and "\<not> valid (validate env inst sch)"
  shows "response (app env req) =
           \<lparr>statusCode = JNum (Fin 400),
            json = JObj [(''error'',
                     JObj [(''message'',
                              JArr (map (\<lambda>e. JStr (stack e)) (errors (validate env inst sch)))),
                           (''status'', JNum (Fin 400))])]\<rparr>
         \<and> calls (trace (app env req)) = []
         \<and> sender (app env req) = ErrorHandler"
  using assms(1)
proof (induct rule: app_cases [of req _ env])
  case preflight
  then show ?case by simp
next
  case unmatched
  then show ?case by simp
next
  case (undecodable val)
  then show ?case by simp
next
  case (refused r ps guard)
  then show ?case by simp
next
  case (handled r ps guards n h)
  let ?req = "req\<lparr>params := ps\<rparr>"
  have "Validate inst sch \<in> set (fst (h env ?req))"
    using handled(5,6) by (auto simp: respond_validate)
  then have out: "snd (h env ?req) =
           NextErr (BadRequestError (JArr (map (\<lambda>e. JStr (stack e)) (errors (validate env inst sch)))))"
    and no_calls: "calls (fst (h env ?req)) = []"
    using handler_validation [OF handled(3) _ assms(2)] by blast+
  show ?case
    using out no_calls sender_handled [OF handled(3), of env req guards ?req]
    by (simp add: respond_calls respond_response calls_append calls_map_Ran
          errorHandler_BadRequestError)
qed

lemma handler_validates:
  assumes "(n, h) \<in> set route_handlers"
    and "(n, inst, sch) \<in> set (validations env req)"
  shows "Validate inst sch \<in> set (fst (h env req))"
  using assms
  by (induct n h rule: route_handlers_induct)
     (auto simp: validations_def handler_defs combinator_defs)

lemma validations_params: "validations env (req\<lparr>params := ps\<rparr>) = validations env req"
  by (simp add: validations_def)

lemma validations_routes: "(n, inst, sch) \<in> set (validations env req) \<Longrightarrow> \<exists>m p. n = Route m p"
  by (auto simp: validations_def)

lemma endpoint_validates:
  assumes "(n, inst, sch) \<in> set (validations env req)"
    and "n \<in> set (ran (trace (app env req)))"
  shows "Validate inst sch \<in> set (trace (app env req))"
  using assms(2)
proof (induct rule: app_cases [of req _ env])
  case preflight
  then show ?case using validations_routes [OF assms(1)] by auto
next
  case unmatched
  then show ?case using validations_routes [OF assms(1)] by auto
next
  case (undecodable val)
  then show ?case using validations_routes [OF assms(1)] by auto
next
  case (refused r ps guard)
  then show ?case using validations_routes [OF assms(1)] by auto
next
  case (handled r ps guards n' h)
  let ?req = "req\<lparr>params := ps\<rparr>"
  have "n \<in> set (guards @ [n'] @ [NotFound404, ErrorHandler])"
    using handled(6) handler_no_ran [OF handled(3), of env ?req]
    by (auto simp: respond_ran ran_append ran_map_Ran split: outcome.splits)
  then have "n = n'"
    using validations_routes [OF assms(1)] handled(5) by auto
  then have "Validate inst sch \<in> set (fst (h env ?req))"
    using handler_validates [OF handled(3), of inst sch env ?req] assms(1)
    by (simp add: validations_params)
  then show ?case by (simp add: respond_validate)
qed

text \<open>
  Claim C6. Whenever an endpoint validates a value against a schema and the validation
  fails, the response has status 400, its body's error message is the list of the
  validation errors' messages (their \<^verbatim>\<open>stack\<close>), and no model operation is performed.
  And each validated endpoint, when its handler runs, validates its request body (or its
  converted query object) against its schema. A request that a guard refuses never
  reaches the handler and is not validated.
\<close>

theorem validation_failure_400:
  "(Validate inst sch \<in> set (trace (app env req)) \<and> \<not> valid (validate env inst sch) \<longrightarrow>
      response (app env req) =
        \<lparr>statusCode = JNum (Fin 400),
         json = JObj [(''error'',
                  JObj [(''message'',
                           JArr (map (\<lambda>e. JStr (stack e)) (errors (validate env inst sch)))),
                        (''status'', JNum (Fin 400))])]\<rparr>
      \<and> calls (trace (app env req)) = []
      \<and> sender (app env req) = ErrorHandler)
   \<and> ((n, inst', sch') \<in> set (validations env req) \<and> n \<in> set (ran (trace (app env req))) \<longrightarrow>
      Validate inst' sch' \<in> set (trace (app env req)))"
  using validation_failure [of inst sch env req] endpoint_validates [of n inst' sch' env req]
  by blast

theorem validation_failure_400_witness:
  "Validate (JObj []) jobNewSchema \<in> set (trace (app rejecting (request POST [''jobs''] admin (JObj []))))
   \<and> \<not> valid (validate rejecting (JObj []) jobNewSchema)
   \<and> (Route POST ''/jobs'', JObj [], jobNewSchema)
        \<in> set (validations rejecting (request POST [''jobs''] admin (JObj [])))
   \<and> Route POST ''/jobs'' \<in> set (ran (trace (app rejecting (request POST [''jobs''] admin (JObj [])))))
   \<and> response (app rejecting (request POST [''jobs''] admin (JObj []))) =
        \<lparr>statusCode = JNum (Fin 400),
         json = JObj [(''error'',
                  JObj [(''message'', JArr [JStr ''instance.salary is not of a type(s) integer'']),
                        (''status'', JNum (Fin 400))])]\<rparr>
   \<and> calls (trace (app rejecting (request POST [''jobs''] admin (JObj [])))) = []"
proof -
  have t: "trace (app rejecting (request POST [''jobs''] admin (JObj []))) =
      [Ran Mw_ensureAdmin, Ran (Route POST ''/jobs''), Validate (JObj []) jobNewSchema,
       Ran ErrorHandler]"
    by (simp add: app_def cors_def respond_def routes_defs request_def accepting_def
          rejecting_def admin_def auth_ensureAdmin_def is_admin_def on_next_def jobs_post_def
          combinator_defs lower_prefixes handles_def)
  have v: "\<not> valid (validate rejecting (JObj []) jobNewSchema)"
    "errors (validate rejecting (JObj []) jobNewSchema)
       = [\<lparr>stack = ''instance.salary is not of a type(s) integer''\<rparr>]"
    by (simp_all add: rejecting_def accepting_def)
  have l: "(Route POST ''/jobs'', JObj [], jobNewSchema)
        \<in> set (validations rejecting (request POST [''jobs''] admin (JObj [])))"
    by (simp add: validations_def request_def)
  show ?thesis
    using validation_failure_400 [of "JObj []" jobNewSchema rejecting
        "request POST [''jobs''] admin (JObj [])" "Route POST ''/jobs''" "JObj []" jobNewSchema]
      t v l
    by simp
qed

subsection \<open>Status codes\<close>










subsection \<open>Single routes\<close>

lemma app_unguarded:
  assumes "req_method req \<noteq> OPTIONS"
    and "resolve (decodeURIComponent env) mounts (req_method req) (path req) = Found (r, ps)"
    and "handlers r = [(n, h)]"
    and "(n, h) \<in> set route_handlers"
  shows "app env req =
           respond env req (Ran n # fst (h env (req\<lparr>params := ps\<rparr>)),
                            snd (h env (req\<lparr>params := ps\<rparr>)))"
  using assms(2,3) run_single [of h env "req\<lparr>params := ps\<rparr>" n]
    route_handlers_not_next [OF assms(4), of env "req\<lparr>params := ps\<rparr>"]
  by (simp add: app_resolve [OF assms(1)])

lemma app_admin:
  assumes "req_method req \<noteq> OPTIONS"
    and "resolve (decodeURIComponent env) mounts (req_method req) (path req) = Found (r, ps)"
    and "handlers r = [(Mw_ensureAdmin, auth_ensureAdmin), (n, h)]"
    and "(n, h) \<in> set route_handlers"
    and "is_admin req"
  shows "app env req =
           respond env req (Ran Mw_ensureAdmin # Ran n # fst (h env (req\<lparr>params := ps\<rparr>)),
                            snd (h env (req\<lparr>params := ps\<rparr>)))"
proof -
  have "is_admin (req\<lparr>params := ps\<rparr>)" using assms(5) by (simp add: is_admin_def)
  then show ?thesis
    using assms(2,3) run_auth_ensureAdmin [of h env "req\<lparr>params := ps\<rparr>" n]
      route_handlers_not_next [OF assms(4), of env "req\<lparr>params := ps\<rparr>"]
    by (simp add: app_resolve [OF assms(1)])
qed

subsection \<open>Registration\<close>

lemma app_register:
  assumes "req_method req = POST" and "path req = [''auth'', ''register'']"
  shows "app env req =
           respond env req (Ran (Route POST ''/auth/register'') # fst (auth_post_register env req),
                            snd (auth_post_register env req))"
proof -
  have same: "auth_post_register env (req\<lparr>params := []\<rparr>) = auth_post_register env req"
    by (simp add: auth_post_register_def)
  have no: "req_method req \<noteq> OPTIONS" using assms(1) by simp
  have "resolve (decodeURIComponent env) mounts (req_method req) (path req) =
      Found (\<lparr>route_method = POST, pattern = [Lit ''register''],
               handlers = [(Route POST ''/auth/register'', auth_post_register)]\<rparr>, [])"
    using assms by (simp add: routes_defs lower_prefixes handles_def)
  then show ?thesis
    using app_unguarded [OF no, of env _ "[]" "Route POST ''/auth/register''" auth_post_register]
      same
    by (simp add: route_handlers_eq)
qed

lemma register_calls:
  "Call (User_register u) \<in> set (fst (auth_post_register env req)) \<Longrightarrow>
   u = JObj (AList.update ''isAdmin'' (JBool False) (own_props (body req)))"
  by (auto simp: auth_post_register_def combinator_defs split: sum.splits if_splits)

lemma register_arg:
  assumes "Call (User_register u) \<in> set (trace (app env req))"
    and "req_method req = POST" and "path req = [''auth'', ''register'']"
  shows "u = JObj (AList.update ''isAdmin'' (JBool False) (own_props (body req)))"
  using assms register_calls [of u env req] by (simp add: app_register respond_call)

lemma register_valid_calls:
  assumes "req_method req = POST" and "path req = [''auth'', ''register'']"
    and "valid (validate env (body req) userRegisterSchema)"
  shows "Call (User_register (JObj (AList.update ''isAdmin'' (JBool False) (own_props (body req)))))
           \<in> set (trace (app env req))"
proof -
  have "Call (User_register (JObj (AList.update ''isAdmin'' (JBool False) (own_props (body req)))))
           \<in> set (fst (auth_post_register env req))"
    using assms(3)
    by (cases "run env (User_register (JObj (AList.update ''isAdmin'' (JBool False) (own_props (body req)))))")
       (simp_all add: auth_post_register_def combinator_defs)
  then show ?thesis
    using assms(1,2) by (simp add: app_register respond_call)
qed

lemma register_independent:
  assumes "\<forall>k. k \<noteq> ''isAdmin'' \<longrightarrow> map_of b k = map_of b' k"
  shows "get_prop (JObj (AList.update ''isAdmin'' (JBool False) b)) k =
         get_prop (JObj (AList.update ''isAdmin'' (JBool False) b')) k"
proof (cases "k = ''isAdmin''")
  case True
  then show ?thesis by (simp add: update_conv')
next
  case False
  then have "map_of b k = map_of b' k" using assms by blast
  then show ?thesis using False by (simp add: update_conv')
qed

text \<open>
  Claim C8. On \<^verbatim>\<open>POST /auth/register\<close>, whatever is passed to \<^verbatim>\<open>User.register\<close> has
  \<^verbatim>\<open>isAdmin\<close> equal to \<^verbatim>\<open>false\<close>, and an accepted body is passed on. Two requests
  whose bodies differ at most in a supplied \<^verbatim>\<open>isAdmin\<close> field pass objects with the same
  properties, so the registered admin flag does not depend on what the client sends.
\<close>

theorem register_never_admin:
  assumes "req_method req = POST" and "path req = [''auth'', ''register'']"
    and "req_method req' = POST" and "path req' = [''auth'', ''register'']"
  shows "(\<forall>u. Call (User_register u) \<in> set (trace (app env req)) \<longrightarrow>
            get_prop u ''isAdmin'' = JBool False)
       \<and> (valid (validate env (body req) userRegisterSchema) \<longrightarrow>
            (\<exists>u. Call (User_register u) \<in> set (trace (app env req))))
       \<and> (\<forall>b b' u u'. body req = JObj b \<and> body req' = JObj b'
            \<and> (\<forall>k. k \<noteq> ''isAdmin'' \<longrightarrow> map_of b k = map_of b' k)
            \<and> Call (User_register u) \<in> set (trace (app env req))
            \<and> Call (User_register u') \<in> set (trace (app env' req')) \<longrightarrow>
            (\<forall>k. get_prop u k = get_prop u' k))"
proof (intro conjI allI impI)
  fix u assume "Call (User_register u) \<in> set (trace (app env req))"
  then have "u = JObj (AList.update ''isAdmin'' (JBool False) (own_props (body req)))"
    using assms(1,2) by (rule register_arg)
  then show "get_prop u ''isAdmin'' = JBool False"
    by (simp add: update_conv')
next
  assume "valid (validate env (body req) userRegisterSchema)"
  then show "\<exists>u. Call (User_register u) \<in> set (trace (app env req))"
    using register_valid_calls [OF assms(1,2)] by blast
next
  fix b b' u u' k
  assume h: "body req = JObj b \<and> body req' = JObj b'
            \<and> (\<forall>k. k \<noteq> ''isAdmin'' \<longrightarrow> map_of b k = map_of b' k)
            \<and> Call (User_register u) \<in> set (trace (app env req))
            \<and> Call (User_register u') \<in> set (trace (app env' req'))"
  then have u: "u = JObj (AList.update ''isAdmin'' (JBool False) b)"
    using register_arg [of u env req] assms(1,2) by simp
  from h have u': "u' = JObj (AList.update ''isAdmin'' (JBool False) b')"
    using register_arg [of u' env' req'] assms(3,4) by simp
  from h have "\<forall>k. k \<noteq> ''isAdmin'' \<longrightarrow> map_of b k = map_of b' k" by blast
  then show "get_prop u k = get_prop u' k"
    unfolding u u' by (rule register_independent)
qed

theorem register_never_admin_witness:
  "req_method (request POST [''auth'', ''register''] JUndefined
      (JObj [(''username'', JStr ''u''), (''isAdmin'', JBool True)])) = POST
   \<and> path (request POST [''auth'', ''register''] JUndefined
      (JObj [(''username'', JStr ''u''), (''isAdmin'', JBool True)])) = [''auth'', ''register'']
   \<and> valid (validate accepting (body (request POST [''auth'', ''register''] JUndefined
      (JObj [(''username'', JStr ''u''), (''isAdmin'', JBool True)]))) userRegisterSchema)
   \<and> Call (User_register (JObj [(''username'', JStr ''u''), (''isAdmin'', JBool False)]))
       \<in> set (trace (app accepting (request POST [''auth'', ''register''] JUndefined
             (JObj [(''username'', JStr ''u''), (''isAdmin'', JBool True)]))))
   \<and> get_prop (JObj [(''username'', JStr ''u''), (''isAdmin'', JBool False)]) ''isAdmin''
       = JBool False"
proof -
  let ?req = "request POST [''auth'', ''register''] JUndefined
      (JObj [(''username'', JStr ''u''), (''isAdmin'', JBool True)])"
  have m: "req_method ?req = POST" and p: "path ?req = [''auth'', ''register'']"
    by (simp_all add: request_def)
  have v: "valid (validate accepting (body ?req) userRegisterSchema)"
    by (simp add: accepting_def)
  have t: "trace (app accepting ?req) =
      [Ran (Route POST ''/auth/register''),
       Validate (JObj [(''username'', JStr ''u''), (''isAdmin'', JBool True)]) userRegisterSchema,
       Call (User_register (JObj [(''username'', JStr ''u''), (''isAdmin'', JBool False)])),
       Call (createToken (JObj []))]"
    by (simp add: app_def cors_def respond_def routes_defs request_def accepting_def on_next_def
          auth_post_register_def combinator_defs lower_prefixes handles_def)
  have "\<forall>u. Call (User_register u) \<in> set (trace (app accepting ?req)) \<longrightarrow>
            get_prop u ''isAdmin'' = JBool False"
    using register_never_admin [OF m p m p, of accepting accepting] by blast
  then show ?thesis using m p v t by simp
qed

subsection \<open>The job search filter\<close>

lemma jobs_get_query_hasEquity:
  "get_prop (JObj (jobs_get_query env q)) ''hasEquity'' =
     JBool (get_prop (JObj q) ''hasEquity'' = JStr ''true'')"
  by (simp add: jobs_get_query_def Let_def update_conv')

lemma handler_findAll:
  assumes "(n, h) \<in> set route_handlers"
    and "Call (Job_findAll f) \<in> set (fst (h env req))"
  shows "f = JObj (jobs_get_query env (query req))"
  using assms
  by (induct n h rule: route_handlers_induct)
     (auto simp: handler_defs combinator_defs split: sum.splits if_splits)

lemma findAll_filter:
  assumes "Call (Job_findAll f) \<in> set (trace (app env req))"
  shows "f = JObj (jobs_get_query env (query req))"
  using assms
proof (induct rule: app_cases [of req _ env])
  case preflight
  then show ?case by simp
next
  case unmatched
  then show ?case by simp
next
  case (undecodable val)
  then show ?case by simp
next
  case (refused r ps guard)
  then show ?case by simp
next
  case (handled r ps guards n h)
  then have "Call (Job_findAll f) \<in> set (fst (h env (req\<lparr>params := ps\<rparr>)))"
    by (auto simp: respond_call)
  then show ?case
    using handler_findAll [OF handled(3)] by fastforce
qed

lemma app_jobs_get:
  assumes "req_method req = GET" and "path req = [''jobs'']"
  shows "app env req =
           respond env req (Ran (Route GET ''/jobs'') # fst (jobs_get env req),
                            snd (jobs_get env req))"
proof -
  have same: "jobs_get env (req\<lparr>params := []\<rparr>) = jobs_get env req"
    by (simp add: jobs_get_def)
  have no: "req_method req \<noteq> OPTIONS" using assms(1) by simp
  have "resolve (decodeURIComponent env) mounts (req_method req) (path req) =
      Found (\<lparr>route_method = GET, pattern = [],
               handlers = [(Route GET ''/jobs'', jobs_get)]\<rparr>, [])"
    using assms by (simp add: routes_defs lower_prefixes handles_def)
  then show ?thesis
    using app_unguarded [OF no, of env _ "[]" "Route GET ''/jobs''" jobs_get] same
    by (simp add: route_handlers_eq)
qed

text \<open>
  Claim C9. Whenever \<^verbatim>\<open>Job.findAll\<close> is called, the filter it receives has a boolean
  \<^verbatim>\<open>hasEquity\<close> field, true exactly when the raw \<^verbatim>\<open>hasEquity\<close> query parameter is the
  string \<^verbatim>\<open>"true"\<close>, false for any other value and for an absent parameter; and a
  \<^verbatim>\<open>GET /jobs\<close> whose converted query passes validation does call \<^verbatim>\<open>Job.findAll\<close>.
\<close>

theorem jobs_filter_hasEquity:
  "(\<forall>f. Call (Job_findAll f) \<in> set (trace (app env req)) \<longrightarrow>
       get_prop f ''hasEquity'' = JBool (get_prop (JObj (query req)) ''hasEquity'' = JStr ''true''))
   \<and> (req_method req = GET \<and> path req = [''jobs'']
        \<and> valid (validate env (JObj (jobs_get_query env (query req))) jobSearchSchema) \<longrightarrow>
       (\<exists>f. Call (Job_findAll f) \<in> set (trace (app env req))))"
proof (intro conjI allI impI)
  fix f assume "Call (Job_findAll f) \<in> set (trace (app env req))"
  then have "f = JObj (jobs_get_query env (query req))" by (rule findAll_filter)
  then show "get_prop f ''hasEquity'' =
      JBool (get_prop (JObj (query req)) ''hasEquity'' = JStr ''true'')"
    using jobs_get_query_hasEquity [of env "query req"] by simp
next
  assume h: "req_method req = GET \<and> path req = [''jobs'']
        \<and> valid (validate env (JObj (jobs_get_query env (query req))) jobSearchSchema)"
  have "Call (Job_findAll (JObj (jobs_get_query env (query req)))) \<in> set (fst (jobs_get env req))"
    using h
    by (cases "run env (Job_findAll (JObj (jobs_get_query env (query req))))")
       (simp_all add: jobs_get_def combinator_defs)
  then show "\<exists>f. Call (Job_findAll f) \<in> set (trace (app env req))"
    using h app_jobs_get [of req env] by (auto simp: respond_call)
qed

theorem jobs_filter_hasEquity_witness:
  "Call (Job_findAll (JObj [(''hasEquity'', JBool True)]))
     \<in> set (trace (app accepting
          ((request GET [''jobs''] JUndefined JUndefined)\<lparr>query := [(''hasEquity'', JStr ''true'')]\<rparr>)))
   \<and> get_prop (JObj [(''hasEquity'', JBool True)]) ''hasEquity'' = JBool True
   \<and> Call (Job_findAll (JObj [(''hasEquity'', JBool False)]))
     \<in> set (trace (app accepting
          ((request GET [''jobs''] JUndefined JUndefined)\<lparr>query := [(''hasEquity'', JStr ''yes'')]\<rparr>)))
   \<and> get_prop (JObj [(''hasEquity'', JBool False)]) ''hasEquity'' = JBool False"
proof -
  let ?yes = "(request GET [''jobs''] JUndefined JUndefined)\<lparr>query := [(''hasEquity'', JStr ''true'')]\<rparr>"
  let ?no = "(request GET [''jobs''] JUndefined JUndefined)\<lparr>query := [(''hasEquity'', JStr ''yes'')]\<rparr>"
  have t1: "trace (app accepting ?yes) =
      [Ran (Route GET ''/jobs''), Validate (JObj [(''hasEquity'', JBool True)]) jobSearchSchema,
       Call (Job_findAll (JObj [(''hasEquity'', JBool True)]))]"
    by (simp add: app_def cors_def respond_def routes_defs request_def accepting_def on_next_def
          jobs_get_def jobs_get_query_def combinator_defs lower_prefixes handles_def)
  have t2: "trace (app accepting ?no) =
      [Ran (Route GET ''/jobs''), Validate (JObj [(''hasEquity'', JBool False)]) jobSearchSchema,
       Call (Job_findAll (JObj [(''hasEquity'', JBool False)]))]"
    by (simp add: app_def cors_def respond_def routes_defs request_def accepting_def on_next_def
          jobs_get_def jobs_get_query_def combinator_defs lower_prefixes handles_def)
  have q: "query ?yes = [(''hasEquity'', JStr ''true'')]" "query ?no = [(''hasEquity'', JStr ''yes'')]"
    by simp_all
  have "get_prop (JObj [(''hasEquity'', JBool True)]) ''hasEquity''
      = JBool (get_prop (JObj (query ?yes)) ''hasEquity'' = JStr ''true'')"
    using jobs_filter_hasEquity [of accepting ?yes] t1 by simp
  moreover have "get_prop (JObj [(''hasEquity'', JBool False)]) ''hasEquity''
      = JBool (get_prop (JObj (query ?no)) ''hasEquity'' = JStr ''true'')"
    using jobs_filter_hasEquity [of accepting ?no] t2 by simp
  ultimately show ?thesis using t1 t2 q by simp
qed

subsection \<open>Deleting a job\<close>

lemma app_jobs_delete:
  assumes "req_method req = DELETE" and "path req = [''jobs'', i]" and "is_admin req"
    and "i \<noteq> []" and "decodeURIComponent env i = Some d"
  shows "app env req =
           respond env req
             (Ran Mw_ensureAdmin # Ran (Route DELETE ''/jobs/:id'')
                # fst (jobs_delete_id env (req\<lparr>params := [(''id'', d)]\<rparr>)),
              snd (jobs_delete_id env (req\<lparr>params := [(''id'', d)]\<rparr>)))"
proof -
  have no: "req_method req \<noteq> OPTIONS" using assms(1) by simp
  have "resolve (decodeURIComponent env) mounts (req_method req) (path req) =
      Found (\<lparr>route_method = DELETE, pattern = [Param ''id''],
               handlers = [(Mw_ensureAdmin, auth_ensureAdmin),
                           (Route DELETE ''/jobs/:id'', jobs_delete_id)]\<rparr>, [(''id'', d)])"
    using assms by (simp add: routes_defs lower_prefixes handles_def)
  then show ?thesis
    using app_admin [OF no, of env _ "[(''id'', d)]" "Route DELETE ''/jobs/:id''" jobs_delete_id]
      assms(3)
    by (simp add: route_handlers_eq)
qed

text \<open>
  Claim C10. A successful \<^verbatim>\<open>DELETE /jobs/:id\<close> (an admin's request whose
  \<^verbatim>\<open>Job.remove\<close> returns) answers \<^verbatim>\<open>{ deleted: n }\<close> with status 200, where \<open>n\<close> is
  the number unary \<^verbatim>\<open>+\<close> makes of the \<^verbatim>\<open>id\<close> path parameter, never the string itself;
  an \<^verbatim>\<open>id\<close> the conversion maps to NaN gives \<^verbatim>\<open>{ deleted: NaN }\<close>. The conversion is
  the engine's and is a parameter of the model. The \<^verbatim>\<open>id\<close> parameter is what Express
  makes of the path segment: the segment, not empty, decoded.
\<close>

theorem jobs_delete_reports_number:
  assumes "req_method req = DELETE" and "path req = [''jobs'', i]" and "is_admin req"
    and "i \<noteq> []" and "decodeURIComponent env i = Some d"
    and "run env (Job_remove (JStr d)) = Inr v"
  shows "response (app env req) =
           \<lparr>statusCode = JNum (Fin 200),
            json = JObj [(''deleted'', JNum (toNumber env (JStr d)))]\<rparr>
         \<and> json (response (app env req)) \<noteq> JObj [(''deleted'', JStr d)]
         \<and> json (response (app env req)) \<noteq> JObj [(''deleted'', JStr i)]
         \<and> (toNumber env (JStr d) = NaN \<longrightarrow>
              json (response (app env req)) = JObj [(''deleted'', JNum NaN)])"
  using assms(6)
  by (simp add: app_jobs_delete [OF assms(1-5)] respond_response jobs_delete_id_def
        combinator_defs param_def)

theorem jobs_delete_reports_number_witness:
  "req_method (request DELETE [''jobs'', ''7''] admin JUndefined) = DELETE
   \<and> path (request DELETE [''jobs'', ''7''] admin JUndefined) = [''jobs'', ''7'']
   \<and> is_admin (request DELETE [''jobs'', ''7''] admin JUndefined)
   \<and> ''7'' \<noteq> []
   \<and> decodeURIComponent accepting ''7'' = Some ''7''
   \<and> run accepting (Job_remove (JStr ''7'')) = Inr (JObj [])
   \<and> toNumber accepting (JStr ''7'') = Fin 7
   \<and> response (app accepting (request DELETE [''jobs'', ''7''] admin JUndefined)) =
       \<lparr>statusCode = JNum (Fin 200), json = JObj [(''deleted'', JNum (Fin 7))]\<rparr>
   \<and> is_admin (request DELETE [''jobs'', ''abc''] admin JUndefined)
   \<and> decodeURIComponent accepting ''abc'' = Some ''abc''
   \<and> toNumber accepting (JStr ''abc'') = NaN
   \<and> json (response (app accepting (request DELETE [''jobs'', ''abc''] admin JUndefined)))
       = JObj [(''deleted'', JNum NaN)]"
proof -
  have a: "is_admin (request DELETE [''jobs'', x] admin JUndefined)" for x
    by (simp add: is_admin_def request_def admin_def)
  have m: "req_method (request DELETE [''jobs'', x] admin JUndefined) = DELETE"
    and p: "path (request DELETE [''jobs'', x] admin JUndefined) = [''jobs'', x]" for x
    by (simp_all add: request_def)
  have r: "run accepting (Job_remove (JStr x)) = Inr (JObj [])" for x
    by (simp add: accepting_def)
  have d: "decodeURIComponent accepting ''7'' = Some ''7''"
    "decodeURIComponent accepting ''abc'' = Some ''abc''"
    by (simp_all add: accepting_def)
  have e: "''7'' \<noteq> []" "''abc'' \<noteq> []" by simp_all
  have n: "toNumber accepting (JStr ''7'') = Fin 7" "toNumber accepting (JStr ''abc'') = NaN"
    by (simp_all add: accepting_def)
  have p1: "response (app accepting (request DELETE [''jobs'', ''7''] admin JUndefined)) =
       \<lparr>statusCode = JNum (Fin 200),
        json = JObj [(''deleted'', JNum (toNumber accepting (JStr ''7'')))]\<rparr>"
    using jobs_delete_reports_number [OF m p a e(1) d(1) r] by blast
  have p2: "toNumber accepting (JStr ''abc'') = NaN \<longrightarrow>
      json (response (app accepting (request DELETE [''jobs'', ''abc''] admin JUndefined)))
       = JObj [(''deleted'', JNum NaN)]"
    using jobs_delete_reports_number [OF m p a e(2) d(2) r] by blast
  show ?thesis
    using a m p r d n p1 p2 by simp
qed

end
